theory Spec2Isabelle
  imports Main "HOL-Library.AList" "HOL-Library.Multiset" "HOL-Library.Char_ord"
    "HOL-Library.List_Lexorder"
begin

section \<open>Python values\<close>

text \<open>
  The gateway answers in JSON and \<open>r.json()\<close> turns the body into Python values:
  \<open>null\<close> is \<open>None\<close>, an object is a \<open>dict\<close> (an association list here, in insertion
  order), an array is a \<open>list\<close>. Numbers are restricted to integers, and a string
  is a list of characters, each a code point below 256.
\<close>

datatype json =
    JNull
  | JBool bool
  | JNum int
  | JStr string
  | JArr "json list"
  | JObj "(string \<times> json) list"

text \<open>
  The name arguments of the query, apply and delete entry points: a \<open>str\<close>, or one of the
  two defaults the signatures use, \<open>None\<close> and \<open>False\<close>.
\<close>

datatype arg = ANone | AFalse | AStr string

datatype error =
    ValueError string
  | LibValueError
  | TypeError
  | AttributeError
  | KeyError string
  | HTTPError nat
  | RequestFailure
  | JSONDecodeError
  | UnexpectedCode nat nat

text \<open>
  \<open>ValueError m\<close> is a \<open>ValueError\<close> this library raises with message \<open>m\<close>;
  \<open>LibValueError\<close> is the \<open>ValueError\<close> that \<open>uuid.UUID\<close> and \<open>int\<close> raise on a malformed
  id; \<open>HTTPError c\<close> is \<open>requests.HTTPError\<close> for status \<open>c\<close>; \<open>RequestFailure\<close> is any other
  exception of the transport (no connection, timeout); \<open>UnexpectedCode c e\<close> is the plain
  \<open>Exception\<close> of \<open>_post\<close>, \<open>_patch\<close> and \<open>_delete\<close> for status \<open>c\<close> where \<open>e\<close> was expected.
\<close>

fun py_bool :: "json \<Rightarrow> bool" where
  "py_bool JNull = False"
| "py_bool (JBool b) = b"
| "py_bool (JNum n) = (n \<noteq> 0)"
| "py_bool (JStr s) = (s \<noteq> [])"
| "py_bool (JArr xs) = (xs \<noteq> [])"
| "py_bool (JObj kvs) = (kvs \<noteq> [])"

fun arg_bool :: "arg \<Rightarrow> bool" where
  "arg_bool ANone = False"
| "arg_bool AFalse = False"
| "arg_bool (AStr s) = (s \<noteq> [])"

fun arg_json :: "arg \<Rightarrow> json" where
  "arg_json ANone = JNull"
| "arg_json AFalse = JBool False"
| "arg_json (AStr s) = JStr s"

text \<open>\<open>'{}'.format(a)\<close> for a name argument.\<close>

fun arg_str :: "arg \<Rightarrow> string" where
  "arg_str ANone = ''None''"
| "arg_str AFalse = ''False''"
| "arg_str (AStr s) = s"

text \<open>
  \<open>v != a\<close> for a parsed value \<open>v\<close> and a name argument \<open>a\<close>. Python's \<open>0 == False\<close>
  holds, every other comparison across types is unequal.
\<close>

fun arg_ne :: "json \<Rightarrow> arg \<Rightarrow> bool" where
  "arg_ne v ANone = (v \<noteq> JNull)"
| "arg_ne v AFalse = (v \<noteq> JBool False \<and> v \<noteq> JNum 0)"
| "arg_ne v (AStr s) = (v \<noteq> JStr s)"

text \<open>\<open>d.get(k)\<close>: only a dict has the method; a missing key gives \<open>None\<close>.\<close>

fun dict_get :: "json \<Rightarrow> string \<Rightarrow> error + json" where
  "dict_get (JObj kvs) k = (case map_of kvs k of None \<Rightarrow> Inr JNull | Some v \<Rightarrow> Inr v)"
| "dict_get _ k = Inl AttributeError"

text \<open>\<open>d[k]\<close> with a string key: \<open>KeyError\<close> on a dict without it, \<open>TypeError\<close> elsewhere.\<close>

fun getitem :: "json \<Rightarrow> string \<Rightarrow> error + json" where
  "getitem (JObj kvs) k = (case map_of kvs k of None \<Rightarrow> Inl (KeyError k) | Some v \<Rightarrow> Inr v)"
| "getitem _ k = Inl TypeError"

text \<open>Iterating a value: a list gives its items, a string its characters, a dict its keys.\<close>

fun py_iter :: "json \<Rightarrow> error + json list" where
  "py_iter (JArr xs) = Inr xs"
| "py_iter (JStr s) = Inr (map (\<lambda>c. JStr [c]) s)"
| "py_iter (JObj kvs) = Inr (map (\<lambda>kv. JStr (fst kv)) kvs)"
| "py_iter _ = Inl TypeError"

fun num_val :: "json \<Rightarrow> int option" where
  "num_val (JNum n) = Some n"
| "num_val (JBool b) = Some (if b then 1 else 0)"
| "num_val _ = None"

text \<open>\<open>a += b\<close>: a list is extended by the items of any iterable.\<close>

fun py_iadd :: "json \<Rightarrow> json \<Rightarrow> error + json" where
  "py_iadd (JArr xs) b = (case py_iter b of Inl e \<Rightarrow> Inl e | Inr ys \<Rightarrow> Inr (JArr (xs @ ys)))"
| "py_iadd (JStr s) (JStr t) = Inr (JStr (s @ t))"
| "py_iadd a b =
     (case (num_val a, num_val b) of
        (Some m, Some n) \<Rightarrow> Inr (JNum (m + n))
      | _ \<Rightarrow> Inl TypeError)"

text \<open>\<open>s.strip(cs)\<close> removes the characters of \<open>cs\<close> from both ends.\<close>

definition py_strip :: "string \<Rightarrow> string \<Rightarrow> string" where
  "py_strip cs s = rev (dropWhile (\<lambda>c. c \<in> set cs) (rev (dropWhile (\<lambda>c. c \<in> set cs) s)))"

text \<open>\<open>sep.join(xs)\<close> for strings.\<close>

fun py_join :: "string \<Rightarrow> string list \<Rightarrow> string" where
  "py_join sep [] = []"
| "py_join sep [x] = x"
| "py_join sep (x # y # ys) = x @ sep @ py_join sep (y # ys)"

text \<open>\<open>s.replace(pat, '')\<close> for a non-empty \<open>pat\<close>: every occurrence goes, left to right.\<close>

function remove_all :: "string \<Rightarrow> string \<Rightarrow> string" where
  "remove_all pat [] = []"
| "remove_all pat (c # cs) =
     (if pat \<noteq> [] \<and> take (length pat) (c # cs) = pat
      then remove_all pat (drop (length pat) (c # cs))
      else c # remove_all pat cs)"
  by pat_completeness auto
termination
  by (relation "measure (\<lambda>(pat, s). length s)") auto

section \<open>The transport adapter\<close>

datatype verb = GET | POST | PATCH | PUT | DELETE

text \<open>What a request carries: \<open>data\<close> is the \<open>data=\<close> argument, a dict or nothing.\<close>

record request =
  meth :: verb
  address :: string
  data :: "(string \<times> json) list option"
  auth_sent :: "(string \<times> string) option"
  headers_sent :: "(string \<times> json) list"

text \<open>
  What comes back: no response at all, or a status code and the body (\<open>None\<close> when the
  body is not JSON).
\<close>

datatype outcome = NoResponse | Response nat "json option"

text \<open>
  Everything outside the client. \<open>respond\<close> is the gateway: it maps the requests made so
  far, the latest last, to the outcome of the latest. \<open>sent\<close> records the requests made.
  \<open>int16\<close> is Python's built-in \<open>int(s, 16)\<close>, \<open>None\<close> where it raises \<open>ValueError\<close>.
  \<open>sorted_raises\<close> is Python's built-in \<open>sorted\<close> on a list of parsed values: does it raise
  \<open>TypeError\<close>? It is asked only where the answer depends on which pairs the sorting
  algorithm compares.
\<close>

record world =
  respond :: "request list \<Rightarrow> outcome"
  int16 :: "string \<Rightarrow> int option"
  sorted_raises :: "json list \<Rightarrow> bool"
  sent :: "request list"

text \<open>The \<open>Kong\<close> object: the three fields \<open>__init__\<close> sets.\<close>

record kong =
  base_url :: string
  auth :: "(string \<times> string) option"
  headers :: "(string \<times> json) list"

type_synonym st = "kong \<times> world"

type_synonym 'a res = "(error + 'a) \<times> st"

datatype uri = UStr string | UList "json list"

definition send :: "verb \<Rightarrow> string \<Rightarrow> (string \<times> json) list option \<Rightarrow> st \<Rightarrow> outcome \<times> st" where
  "send m u d s =
     (let k = fst s; w = snd s;
          r = \<lparr>meth = m, address = u, data = d, auth_sent = auth k, headers_sent = headers k\<rparr>;
          l = sent w @ [r]
      in (respond w l, (k, w\<lparr>sent := l\<rparr>)))"

fun seg_str :: "json \<Rightarrow> string option" where
  "seg_str (JStr s) = Some s"
| "seg_str _ = None"

text \<open>
  \<open>_url\<close>: a list is stepped into, \<open>None\<close> entries are dropped, the rest is joined to the
  base address by slashes; \<open>join\<close> raises \<open>TypeError\<close> on an entry that is not a string.
\<close>

definition kong_url :: "kong \<Rightarrow> uri \<Rightarrow> error + string" where
  "kong_url k u =
     (let args = (case u of UList xs \<Rightarrow> xs | UStr s \<Rightarrow> [JStr s]);
          args = filter (\<lambda>x. x \<noteq> JNull) args
      in if args = [] then Inr (base_url k)
         else if list_all (\<lambda>x. seg_str x \<noteq> None) args
         then Inr (py_join ''/'' (base_url k # map (\<lambda>x. the (seg_str x)) args))
         else Inl TypeError)"

text \<open>\<open>raise_for_status\<close> raises for the codes 400 to 599.\<close>

definition is_http_error :: "nat \<Rightarrow> bool" where
  "is_http_error c = (400 \<le> c \<and> c < 600)"

definition body_json :: "json option \<Rightarrow> st \<Rightarrow> json res" where
  "body_json b s = (case b of None \<Rightarrow> (Inl JSONDecodeError, s) | Some j \<Rightarrow> (Inr j, s))"

definition kong_get :: "uri \<Rightarrow> st \<Rightarrow> json res" where
  "kong_get u s =
     (case kong_url (fst s) u of
        Inl e \<Rightarrow> (Inl e, s)
      | Inr a \<Rightarrow>
          (case send GET a None s of
             (NoResponse, s') \<Rightarrow> (Inl RequestFailure, s')
           | (Response c b, s') \<Rightarrow>
               if is_http_error c then (Inl (HTTPError c), s') else body_json b s'))"

text \<open>\<open>self.headers.update(h)\<close>, entry by entry.\<close>

definition dict_update :: "(string \<times> json) list \<Rightarrow> (string \<times> json) list \<Rightarrow> (string \<times> json) list" where
  "dict_update d h = foldl (\<lambda>acc kv. AList.update (fst kv) (snd kv) acc) d h"

definition merge_headers :: "json \<Rightarrow> st \<Rightarrow> st" where
  "merge_headers h s =
     (case h of
        JObj kvs \<Rightarrow>
          if py_bool h then ((fst s)\<lparr>headers := dict_update (headers (fst s)) kvs\<rparr>, snd s) else s
      | _ \<Rightarrow> s)"

definition kong_post :: "uri \<Rightarrow> (string \<times> json) list option \<Rightarrow> json \<Rightarrow> st \<Rightarrow> json res" where
  "kong_post u d h s0 =
     (let s = merge_headers h s0 in
      case kong_url (fst s) u of
        Inl e \<Rightarrow> (Inl e, s)
      | Inr a \<Rightarrow>
          (case send POST a d s of
             (NoResponse, s') \<Rightarrow> (Inl RequestFailure, s')
           | (Response c b, s') \<Rightarrow>
               if c = 201 then body_json b s'
               else (case b of None \<Rightarrow> (Inl JSONDecodeError, s')
                     | Some j \<Rightarrow> (Inl (UnexpectedCode c 201), s'))))"

definition kong_patch :: "uri \<Rightarrow> (string \<times> json) list option \<Rightarrow> json \<Rightarrow> st \<Rightarrow> json res" where
  "kong_patch u d h s0 =
     (let s = merge_headers h s0 in
      case kong_url (fst s) u of
        Inl e \<Rightarrow> (Inl e, s)
      | Inr a \<Rightarrow>
          (case send PATCH a d s of
             (NoResponse, s') \<Rightarrow> (Inl RequestFailure, s')
           | (Response c b, s') \<Rightarrow>
               if c = 200 then body_json b s'
               else (case b of None \<Rightarrow> (Inl JSONDecodeError, s')
                     | Some j \<Rightarrow> (Inl (UnexpectedCode c 200), s'))))"

definition kong_put :: "uri \<Rightarrow> (string \<times> json) list option \<Rightarrow> st \<Rightarrow> json res" where
  "kong_put u d s =
     (case kong_url (fst s) u of
        Inl e \<Rightarrow> (Inl e, s)
      | Inr a \<Rightarrow>
          (case send PUT a d s of
             (NoResponse, s') \<Rightarrow> (Inl RequestFailure, s')
           | (Response c b, s') \<Rightarrow>
               if c = 201 then (Inr (JBool True), s')
               else if is_http_error c then (Inl (HTTPError c), s')
               else body_json b s'))"

definition kong_delete :: "uri \<Rightarrow> st \<Rightarrow> bool res" where
  "kong_delete u s =
     (case kong_url (fst s) u of
        Inl e \<Rightarrow> (Inl e, s)
      | Inr a \<Rightarrow>
          (case send DELETE a None s of
             (NoResponse, s') \<Rightarrow> (Inl RequestFailure, s')
           | (Response c b, s') \<Rightarrow>
               if c \<noteq> 204 then (Inl (UnexpectedCode c 204), s') else (Inr True, s')))"

text \<open>
  \<open>__init__\<close>: the credentials, when both are given, become the basic-auth pair and the
  admin-token header; with \<open>ping\<close> the status endpoint is read once.
\<close>

definition kong_init :: "string \<Rightarrow> string option \<Rightarrow> string option \<Rightarrow> bool \<Rightarrow> world \<Rightarrow> (error + kong) \<times> world" where
  "kong_init b auth_user auth_pass ping w =
     (let k = (case (auth_user, auth_pass) of
                 (Some u, Some p) \<Rightarrow>
                   \<lparr>base_url = b, auth = Some (u, p), headers = [(''Kong-Admin-Token'', JStr p)]\<rparr>
               | _ \<Rightarrow> \<lparr>base_url = b, auth = None, headers = []\<rparr>)
      in if ping
         then (case kong_get (UStr ''status'') (k, w) of
                 (Inl e, s') \<Rightarrow> (Inl e, snd s')
               | (Inr r, s') \<Rightarrow> (Inr (fst s'), snd s'))
         else (Inr k, w))"

section \<open>Resolvers\<close>

text \<open>
  \<open>route_get\<close>: a GET on \<open>routes/<id>\<close>; \<open>requests.HTTPError\<close> is caught and gives \<open>None\<close>,
  every other exception passes through.
\<close>

definition route_get :: "string \<Rightarrow> st \<Rightarrow> json res" where
  "route_get route_id s =
     (case kong_get (UList [JStr ''routes'', JStr route_id]) s of
        (Inl (HTTPError c), s') \<Rightarrow> (Inr JNull, s')
      | (Inl e, s') \<Rightarrow> (Inl e, s')
      | (Inr r, s') \<Rightarrow> (Inr r, s'))"

text \<open>
  Modelled from the spec: \<open>service_get\<close> of \<open>kong/service.py\<close>, which is not among the
  sources. The spec gives every resolver the same \<open>get\<close>: a GET by id or name that
  returns \<open>None\<close> when the transport reports not found.
\<close>

definition service_get :: "string \<Rightarrow> st \<Rightarrow> json res" where
  "service_get name s =
     (case kong_get (UList [JStr ''services'', JStr name]) s of
        (Inl (HTTPError c), s') \<Rightarrow> (Inr JNull, s')
      | (Inl e, s') \<Rightarrow> (Inl e, s')
      | (Inr r, s') \<Rightarrow> (Inr r, s'))"

text \<open>
  Modelled from the spec: \<open>consumer_get\<close> of \<open>kong/consumer.py\<close>, which is not among the
  sources; the same \<open>get\<close> on the consumers collection.
\<close>

definition consumer_get :: "string \<Rightarrow> st \<Rightarrow> json res" where
  "consumer_get name s =
     (case kong_get (UList [JStr ''consumers'', JStr name]) s of
        (Inl (HTTPError c), s') \<Rightarrow> (Inr JNull, s')
      | (Inl e, s') \<Rightarrow> (Inl e, s')
      | (Inr r, s') \<Rightarrow> (Inr r, s'))"

text \<open>
  \<open>uuid.UUID(v)\<close>, kept for its exceptions only: \<open>None\<close> is a \<open>TypeError\<close>, a value without
  \<open>replace\<close> an \<open>AttributeError\<close>; a string loses \<open>urn:\<close>, \<open>uuid:\<close>, outer braces and
  hyphens, must then have 32 characters and be a base-16 literal below \<open>2 ^ 128\<close>.
\<close>

definition uuid_hex :: "string \<Rightarrow> string" where
  "uuid_hex s = remove_all ''-'' (py_strip ''{}'' (remove_all ''uuid:'' (remove_all ''urn:'' s)))"

fun py_uuid :: "world \<Rightarrow> json \<Rightarrow> error + string" where
  "py_uuid w JNull = Inl TypeError"
| "py_uuid w (JStr s) =
     (if length (uuid_hex s) \<noteq> 32 then Inl LibValueError
      else case int16 w (uuid_hex s) of
             None \<Rightarrow> Inl LibValueError
           | Some n \<Rightarrow> if 0 \<le> n \<and> n < 2 ^ 128 then Inr s else Inl LibValueError)"
| "py_uuid w _ = Inl AttributeError"

section \<open>Plugins\<close>

definition quoted :: "string \<Rightarrow> string" where
  "quoted s = [CHR 0x27] @ s @ [CHR 0x27]"

text \<open>
  One binding block of \<open>plugin_query\<close> (the three blocks differ in the resolver, the
  collection and the message): the name is resolved, the \<open>id\<close> of the result is read and
  validated, and only then is the result compared with \<open>None\<close>. By then the name
  variable is bound to the result, so the message would be formatted with \<open>None\<close>.
\<close>

definition resolve_id :: "(string \<Rightarrow> st \<Rightarrow> json res) \<Rightarrow> string \<Rightarrow> string \<Rightarrow> st \<Rightarrow> string res" where
  "resolve_id getter msg name s =
     (case getter name s of
        (Inl e, s') \<Rightarrow> (Inl e, s')
      | (Inr r, s') \<Rightarrow>
          (case dict_get r ''id'' of
             Inl e \<Rightarrow> (Inl e, s')
           | Inr i \<Rightarrow>
               (case py_uuid (snd s') i of
                  Inl e \<Rightarrow> (Inl e, s')
                | Inr u \<Rightarrow> if r = JNull then (Inl (ValueError msg), s') else (Inr u, s'))))"

definition bind_step ::
  "(string \<Rightarrow> st \<Rightarrow> json res) \<Rightarrow> string \<Rightarrow> string \<Rightarrow> arg \<Rightarrow> json list \<Rightarrow> st
     \<Rightarrow> (json list \<times> string option) res" where
  "bind_step getter coll msg a u s =
     (if arg_bool a
      then (case resolve_id getter msg (arg_str a) s of
              (Inl e, s') \<Rightarrow> (Inl e, s')
            | (Inr i, s') \<Rightarrow> (Inr ([JStr coll, JStr (arg_str a), JStr ''plugins''], Some i), s'))
      else (Inr (u, None), s))"

text \<open>\<open>d[k] = v\<close> on a dict.\<close>

fun setitem :: "json \<Rightarrow> string \<Rightarrow> json \<Rightarrow> json" where
  "setitem (JObj kvs) k v = JObj (AList.update k v kvs)"
| "setitem j k v = j"

text \<open>
  The pagination loop of \<open>plugin_query\<close>: \<open>plugins\<close> is the first page, \<open>res\<close> the latest.
  The loop has no bound, so the walk is a partial function: \<open>None\<close> is a loop that never
  ends.
\<close>

partial_function (option) walk :: "json \<Rightarrow> json \<Rightarrow> st \<Rightarrow> json res option" where
  "walk plugins res s =
     (case getitem res ''next'' of
        Inl e \<Rightarrow> Some (Inl e, s)
      | Inr nx \<Rightarrow>
          if \<not> py_bool nx then Some (Inr plugins, s)
          else (case nx of
                  JStr c \<Rightarrow>
                    (case kong_get (UStr (py_strip ''/'' c)) s of
                       (Inl e, s') \<Rightarrow> Some (Inl e, s')
                     | (Inr res', s') \<Rightarrow>
                         (case getitem plugins ''data'' of
                            Inl e \<Rightarrow> Some (Inl e, s')
                          | Inr a \<Rightarrow>
                              (case getitem res' ''data'' of
                                 Inl e \<Rightarrow> Some (Inl e, s')
                               | Inr b \<Rightarrow>
                                   (case py_iadd a b of
                                      Inl e \<Rightarrow> Some (Inl e, s')
                                    | Inr v \<Rightarrow> walk (setitem plugins ''data'' v) res' s'))))
                | _ \<Rightarrow> Some (Inl AttributeError, s)))"

text \<open>\<open>bool(x)\<close> for an id that is \<open>None\<close> or a string.\<close>

fun id_bool :: "string option \<Rightarrow> bool" where
  "id_bool None = False"
| "id_bool (Some i) = (i \<noteq> [])"

text \<open>
  The two tests the loop body makes on one binding: presence must agree, and a present
  binding must carry the resolved id. \<open>Inr False\<close> is \<open>continue\<close>.
\<close>

definition binding_ok :: "json \<Rightarrow> string option \<Rightarrow> error + bool" where
  "binding_ok b i =
     (if py_bool b \<noteq> id_bool i then Inr False
      else if py_bool b
      then (case dict_get b ''id'' of
              Inl e \<Rightarrow> Inl e
            | Inr v \<Rightarrow> Inr (\<not> (case i of None \<Rightarrow> v \<noteq> JNull | Some u \<Rightarrow> v \<noteq> JStr u)))
      else Inr True)"

text \<open>The body of the filter loop for one candidate: does it reach \<open>result.append\<close>?\<close>

definition plugin_matches :: "arg \<Rightarrow> string option \<Rightarrow> string option \<Rightarrow> string option \<Rightarrow> json \<Rightarrow> error + bool" where
  "plugin_matches name consumer_id service_id route_id plugin =
     (case dict_get plugin ''consumer'' of
        Inl e \<Rightarrow> Inl e
      | Inr plugin_consumer \<Rightarrow>
     (case dict_get plugin ''service'' of
        Inl e \<Rightarrow> Inl e
      | Inr plugin_service \<Rightarrow>
     (case dict_get plugin ''route'' of
        Inl e \<Rightarrow> Inl e
      | Inr plugin_route \<Rightarrow>
     (case dict_get plugin ''name'' of
        Inl e \<Rightarrow> Inl e
      | Inr n \<Rightarrow>
          if arg_ne n name then Inr False
          else (case binding_ok plugin_consumer consumer_id of
                  Inl e \<Rightarrow> Inl e
                | Inr False \<Rightarrow> Inr False
                | Inr True \<Rightarrow>
               (case binding_ok plugin_service service_id of
                  Inl e \<Rightarrow> Inl e
                | Inr False \<Rightarrow> Inr False
                | Inr True \<Rightarrow> binding_ok plugin_route route_id))))))"

fun filter_plugins :: "arg \<Rightarrow> string option \<Rightarrow> string option \<Rightarrow> string option \<Rightarrow> json list \<Rightarrow> error + json list" where
  "filter_plugins name cid sid rid [] = Inr []"
| "filter_plugins name cid sid rid (p # ps) =
     (case plugin_matches name cid sid rid p of
        Inl e \<Rightarrow> Inl e
      | Inr keep \<Rightarrow>
          (case filter_plugins name cid sid rid ps of
             Inl e \<Rightarrow> Inl e
           | Inr result \<Rightarrow> Inr (if keep then p # result else result)))"

text \<open>
  The messages of the three \<open>ValueError\<close>s of \<open>plugin_query\<close>, formatted with the name
  variable as it is bound where they are raised.
\<close>

definition service_gone :: string where
  "service_gone = ''Service '' @ quoted ''None'' @ '' not found. Has it been created?''"

definition route_gone :: string where
  "route_gone = ''Route '' @ quoted ''None'' @ '' not found. Has it been created?''"

definition consumer_gone :: string where
  "consumer_gone = ''Consumer None not found. Has it been created?''"

text \<open>
  Lines 59 to 94 of \<open>plugin_query\<close>: the target collection and the three resolved ids.
  Every supplied binding replaces the collection, so the last one supplied wins.
\<close>

definition query_bindings ::
  "arg \<Rightarrow> arg \<Rightarrow> arg \<Rightarrow> arg \<Rightarrow> st \<Rightarrow> (json list \<times> string option \<times> string option \<times> string option) res" where
  "query_bindings service_name route_name consumer_name plugin_id s =
     (let u = (if arg_bool plugin_id then [JStr ''plugins'', arg_json plugin_id] else [JStr ''plugins''])
      in case bind_step service_get ''services''
                service_gone
                service_name u s of
           (Inl e, s1) \<Rightarrow> (Inl e, s1)
         | (Inr (u1, service_id), s1) \<Rightarrow>
        (case bind_step route_get ''routes''
                route_gone
                route_name u1 s1 of
           (Inl e, s2) \<Rightarrow> (Inl e, s2)
         | (Inr (u2, route_id), s2) \<Rightarrow>
        (case bind_step consumer_get ''consumers''
                consumer_gone
                consumer_name u2 s2 of
           (Inl e, s3) \<Rightarrow> (Inl e, s3)
         | (Inr (u3, consumer_id), s3) \<Rightarrow> (Inr (u3, service_id, route_id, consumer_id), s3))))"

definition need_one :: string where
  "need_one = ''Need at least one of '' @ quoted ''plugin_id'' @ '' or '' @ quoted ''name''"

definition plugin_query :: "arg \<Rightarrow> arg \<Rightarrow> arg \<Rightarrow> arg \<Rightarrow> arg \<Rightarrow> st \<Rightarrow> json list res option" where
  "plugin_query name service_name route_name consumer_name plugin_id s =
     (if plugin_id = ANone \<and> name = ANone then Some (Inl (ValueError need_one), s)
      else case query_bindings service_name route_name consumer_name plugin_id s of
             (Inl e, s1) \<Rightarrow> Some (Inl e, s1)
           | (Inr (u, service_id, route_id, consumer_id), s1) \<Rightarrow>
          (case kong_get (UList u) s1 of
             (Inl e, s2) \<Rightarrow> Some (Inl e, s2)
           | (Inr res, s2) \<Rightarrow>
          (case walk res res s2 of
             None \<Rightarrow> None
           | Some (Inl e, s3) \<Rightarrow> Some (Inl e, s3)
           | Some (Inr plugins, s3) \<Rightarrow>
          (case getitem plugins ''data'' of
             Inl e \<Rightarrow> Some (Inl e, s3)
           | Inr d \<Rightarrow>
          (case py_iter d of
             Inl e \<Rightarrow> Some (Inl e, s3)
           | Inr items \<Rightarrow>
          (case filter_plugins name consumer_id service_id route_id items of
             Inl e \<Rightarrow> Some (Inl e, s3)
           | Inr result \<Rightarrow> Some (Inr result, s3)))))))"

text \<open>\<open>_prepare_config\<close>: the dict comprehension inserts \<open>'config.' + k\<close> for each item in turn.\<close>

definition prepare_config :: "(string \<times> json) list \<Rightarrow> (string \<times> json) list" where
  "prepare_config config = dict_update [] (map (\<lambda>kv. (''config.'' @ fst kv, snd kv)) config)"

text \<open>
  One binding block of \<open>plugin_apply\<close>: here the result of the resolver is compared with
  \<open>None\<close> before it is used.
\<close>

definition apply_binding ::
  "(string \<Rightarrow> st \<Rightarrow> json res) \<Rightarrow> string \<Rightarrow> string \<Rightarrow> arg \<Rightarrow> (string \<times> json) list \<Rightarrow> st
     \<Rightarrow> (string \<times> json) list res" where
  "apply_binding getter label key a d s =
     (if arg_bool a
      then (case getter (arg_str a) s of
              (Inl e, s') \<Rightarrow> (Inl e, s')
            | (Inr r, s') \<Rightarrow>
                if r = JNull
                then (Inl (ValueError (label @ '' '' @ quoted (arg_str a) @ '' not found'')), s')
                else (case getitem r ''id'' of
                        Inl e \<Rightarrow> (Inl e, s')
                      | Inr i \<Rightarrow> (Inr (AList.update key i d), s')))
      else (Inr d, s))"

text \<open>Lines 164 to 194 of \<open>plugin_apply\<close>: the payload. \<open>config\<close> is \<open>JNull\<close> for \<open>None\<close>.\<close>

definition apply_payload :: "arg \<Rightarrow> json \<Rightarrow> arg \<Rightarrow> arg \<Rightarrow> arg \<Rightarrow> st \<Rightarrow> (string \<times> json) list res" where
  "apply_payload name config service_name route_name consumer_name s =
     (case (case config of
              JNull \<Rightarrow> Inr [(''name'', arg_json name)]
            | JObj kvs \<Rightarrow> Inr (dict_update [(''name'', arg_json name)] (prepare_config kvs))
            | _ \<Rightarrow> Inl (ValueError (quoted ''config'' @ '' parameter is not a dict''))) of
        Inl e \<Rightarrow> (Inl e, s)
      | Inr d0 \<Rightarrow>
     (case apply_binding service_get ''Service'' ''service.id'' service_name d0 s of
        (Inl e, s1) \<Rightarrow> (Inl e, s1)
      | (Inr d1, s1) \<Rightarrow>
     (case apply_binding route_get ''Route'' ''route.id'' route_name d1 s1 of
        (Inl e, s2) \<Rightarrow> (Inl e, s2)
      | (Inr d2, s2) \<Rightarrow> apply_binding consumer_get ''Consumer'' ''consumer.id'' consumer_name d2 s2)))"

definition tuple_str :: "arg \<Rightarrow> arg \<Rightarrow> arg \<Rightarrow> arg \<Rightarrow> string" where
  "tuple_str name service_name route_name consumer_name =
     ''name: '' @ quoted (arg_str name) @ '', service: '' @ quoted (arg_str service_name)
       @ '', route: '' @ quoted (arg_str route_name) @ '', consumer: '' @ quoted (arg_str consumer_name)"

definition plugin_apply :: "arg \<Rightarrow> json \<Rightarrow> arg \<Rightarrow> arg \<Rightarrow> arg \<Rightarrow> st \<Rightarrow> json res option" where
  "plugin_apply name config service_name route_name consumer_name s =
     (case apply_payload name config service_name route_name consumer_name s of
        (Inl e, s1) \<Rightarrow> Some (Inl e, s1)
      | (Inr d, s1) \<Rightarrow>
     (case plugin_query name service_name route_name consumer_name ANone s1 of
        None \<Rightarrow> None
      | Some (Inl e, s2) \<Rightarrow> Some (Inl e, s2)
      | Some (Inr p, s2) \<Rightarrow>
          if length p > 1
          then Some (Inl (ValueError (''Multiple Plugin records for ''
                 @ tuple_str name service_name route_name consumer_name)), s2)
          else (case p of
                  [] \<Rightarrow> Some (kong_post (UList [JStr ''plugins'']) (Some d) JNull s2)
                | m # _ \<Rightarrow>
                    (case dict_get m ''id'' of
                       Inl e \<Rightarrow> Some (Inl e, s2)
                     | Inr i \<Rightarrow> Some (kong_patch (UList [JStr ''plugins'', i]) (Some d) JNull s2)))))"

definition plugin_delete :: "arg \<Rightarrow> arg \<Rightarrow> arg \<Rightarrow> arg \<Rightarrow> st \<Rightarrow> bool res option" where
  "plugin_delete name service_name route_name consumer_name s =
     (case plugin_query name service_name route_name consumer_name ANone s of
        None \<Rightarrow> None
      | Some (Inl e, s1) \<Rightarrow> Some (Inl e, s1)
      | Some (Inr p, s1) \<Rightarrow>
          if length p > 1
          then Some (Inl (ValueError (''Found multiple Plugin records for ''
                 @ tuple_str name service_name route_name consumer_name)), s1)
          else (case p of
                  [] \<Rightarrow> Some (Inr False, s1)
                | m # _ \<Rightarrow>
                    (case dict_get m ''id'' of
                       Inl e \<Rightarrow> Some (Inl e, s1)
                     | Inr i \<Rightarrow> Some (kong_delete (UList [JStr ''plugins'', i]) s1))))"

section \<open>Routes\<close>

text \<open>\<open>route_list\<close>: the \<open>data\<close> of the first page, \<open>[]\<close> when the key is missing.\<close>

definition route_list :: "string \<Rightarrow> st \<Rightarrow> json res" where
  "route_list service_name s =
     (case kong_get (UList [JStr ''services'', JStr service_name, JStr ''routes'']) s of
        (Inl e, s') \<Rightarrow> (Inl e, s')
      | (Inr (JObj kvs), s') \<Rightarrow>
          (case map_of kvs ''data'' of None \<Rightarrow> (Inr (JArr []), s') | Some v \<Rightarrow> (Inr v, s'))
      | (Inr _, s') \<Rightarrow> (Inl AttributeError, s'))"

fun is_str :: "json \<Rightarrow> bool" where
  "is_str (JStr s) = True"
| "is_str _ = False"

fun the_str :: "json \<Rightarrow> string" where
  "the_str (JStr s) = s"
| "the_str _ = []"

text \<open>
  \<open>sorted(v) == sorted(hs)\<close> for a parsed value \<open>v\<close> and a list of strings \<open>hs\<close>. Strings
  sort by code point. A single item or a list of numbers sorts without error; whether
  \<open>sorted\<close> raises on any other list is the environment's answer. A sorted list that holds
  an item that is not a string never equals a list of strings.
\<close>

definition sorted_eq :: "world \<Rightarrow> json \<Rightarrow> string list \<Rightarrow> error + bool" where
  "sorted_eq w v hs =
     (case py_iter v of
        Inl e \<Rightarrow> Inl e
      | Inr xs \<Rightarrow>
          if list_all is_str xs then Inr (sort (map the_str xs) = sort hs)
          else if length xs \<le> 1 then Inr False
          else if list_all (\<lambda>x. num_val x \<noteq> None) xs then Inr False
          else if sorted_raises w xs then Inl TypeError
          else Inr False)"

text \<open>\<open>r.get(k) if r.get(k) is not None else []\<close>\<close>

definition field_or_empty :: "json \<Rightarrow> string \<Rightarrow> error + json" where
  "field_or_empty r k =
     (case dict_get r k of Inl e \<Rightarrow> Inl e | Inr v \<Rightarrow> Inr (if v \<noteq> JNull then v else JArr []))"

text \<open>The test of the loop body of \<open>route_query\<close>; \<open>and\<close> stops at the first unequal pair.\<close>

definition route_matches :: "world \<Rightarrow> string list \<Rightarrow> string list \<Rightarrow> string list \<Rightarrow> string list \<Rightarrow> json \<Rightarrow> error + bool" where
  "route_matches w hosts paths methods protocols r =
     (case field_or_empty r ''hosts'' of Inl e \<Rightarrow> Inl e | Inr existing_hosts \<Rightarrow>
     (case field_or_empty r ''paths'' of Inl e \<Rightarrow> Inl e | Inr existing_paths \<Rightarrow>
     (case field_or_empty r ''methods'' of Inl e \<Rightarrow> Inl e | Inr existing_methods \<Rightarrow>
     (case field_or_empty r ''protocols'' of Inl e \<Rightarrow> Inl e | Inr existing_protocols \<Rightarrow>
     (case sorted_eq w existing_hosts hosts of Inl e \<Rightarrow> Inl e | Inr False \<Rightarrow> Inr False | Inr True \<Rightarrow>
     (case sorted_eq w existing_paths paths of Inl e \<Rightarrow> Inl e | Inr False \<Rightarrow> Inr False | Inr True \<Rightarrow>
     (case sorted_eq w existing_methods methods of Inl e \<Rightarrow> Inl e | Inr False \<Rightarrow> Inr False | Inr True \<Rightarrow>
      sorted_eq w existing_protocols protocols)))))))"

fun filter_routes :: "world \<Rightarrow> string list \<Rightarrow> string list \<Rightarrow> string list \<Rightarrow> string list \<Rightarrow> json list \<Rightarrow> error + json list" where
  "filter_routes w hosts paths methods protocols [] = Inr []"
| "filter_routes w hosts paths methods protocols (r # rs) =
     (case route_matches w hosts paths methods protocols r of
        Inl e \<Rightarrow> Inl e
      | Inr keep \<Rightarrow>
          (case filter_routes w hosts paths methods protocols rs of
             Inl e \<Rightarrow> Inl e
           | Inr result \<Rightarrow> Inr (if keep then r # result else result)))"

definition route_query :: "string \<Rightarrow> string list \<Rightarrow> string list \<Rightarrow> string list \<Rightarrow> string list \<Rightarrow> st \<Rightarrow> json res" where
  "route_query service_name hosts paths methods protocols s =
     (case service_get service_name s of
        (Inl e, s1) \<Rightarrow> (Inl e, s1)
      | (Inr sv, s1) \<Rightarrow>
          if sv = JNull
          then (Inl (ValueError (''Service '' @ service_name @ '' not found. Has it been created?'')), s1)
          else (case route_list service_name s1 of
                  (Inl e, s2) \<Rightarrow> (Inl e, s2)
                | (Inr l, s2) \<Rightarrow>
               (case py_iter l of
                  Inl e \<Rightarrow> (Inl e, s2)
                | Inr rs \<Rightarrow>
               (case filter_routes (snd s2) hosts paths methods protocols rs of
                  Inl e \<Rightarrow> (Inl e, s2)
                | Inr result \<Rightarrow>
                    if length result > 1
                    then (Inl (ValueError ''Duplicate routes found. Clean up manually first''), s2)
                    else (case result of [] \<Rightarrow> (Inr JNull, s2) | r # _ \<Rightarrow> (Inr r, s2))))))"

definition route_delete :: "string \<Rightarrow> st \<Rightarrow> bool res" where
  "route_delete route_id s =
     (case route_get route_id s of
        (Inl e, s1) \<Rightarrow> (Inl e, s1)
      | (Inr r, s1) \<Rightarrow>
          if py_bool r then kong_delete (UList [JStr ''routes'', JStr route_id]) s1
          else (Inr False, s1))"

section \<open>Properties\<close>

text \<open>
  The requests made between two states, and the relation "only GET requests were made,
  and the \<open>Kong\<close> object was left as it was".
\<close>

definition issued :: "st \<Rightarrow> st \<Rightarrow> request list" where
  "issued s s' = drop (length (sent (snd s))) (sent (snd s'))"

definition only_reads :: "st \<Rightarrow> st \<Rightarrow> bool" where
  "only_reads s s' \<longleftrightarrow>
     fst s' = fst s \<and> respond (snd s') = respond (snd s) \<and> int16 (snd s') = int16 (snd s)
     \<and> sorted_raises (snd s') = sorted_raises (snd s)
     \<and> sent (snd s') = sent (snd s) @ issued s s'
     \<and> list_all (\<lambda>r. meth r = GET) (issued s s')"

text \<open>The request a call makes with the adapter in state \<open>k\<close>, and its recording.\<close>

definition request_of :: "verb \<Rightarrow> string \<Rightarrow> (string \<times> json) list option \<Rightarrow> kong \<Rightarrow> request" where
  "request_of m u d k = \<lparr>meth = m, address = u, data = d, auth_sent = auth k, headers_sent = headers k\<rparr>"

definition log_req :: "request \<Rightarrow> st \<Rightarrow> st" where
  "log_req r s = (fst s, (snd s)\<lparr>sent := sent (snd s) @ [r]\<rparr>)"

text \<open>
  \<open>int(s, 16)\<close> for a string of code points below 256, as the example worlds have it:
  white space at both ends is skipped (tab to carriage return, space, and the two
  spaces above 127), then come an optional sign, an optional \<open>0x\<close> or \<open>0X\<close> with at most
  one underscore after it, and hexadecimal digits in either case, with single
  underscores allowed between them.
\<close>

definition int_space :: "char \<Rightarrow> bool" where
  "int_space c \<longleftrightarrow>
     c \<in> set [CHR 0x09, CHR 0x0A, CHR 0x0B, CHR 0x0C, CHR 0x0D, CHR 0x20, CHR 0x85, CHR 0xA0]"

definition hex_digit :: "char \<Rightarrow> nat option" where
  "hex_digit c =
     (if c \<in> set ''0123456789abcdef''
      then Some (length (takeWhile (\<lambda>d. d \<noteq> c) ''0123456789abcdef''))
      else if c \<in> set ''ABCDEF''
      then Some (10 + length (takeWhile (\<lambda>d. d \<noteq> c) ''ABCDEF''))
      else None)"

definition drop_sign :: "string \<Rightarrow> bool \<times> string" where
  "drop_sign t =
     (if t \<noteq> [] \<and> hd t = CHR ''+'' then (False, tl t)
      else if t \<noteq> [] \<and> hd t = CHR ''-'' then (True, tl t)
      else (False, t))"

definition drop_0x :: "string \<Rightarrow> string" where
  "drop_0x t =
     (if take 2 t = ''0x'' \<or> take 2 t = ''0X''
      then (if take 1 (drop 2 t) = ''_'' then drop 3 t else drop 2 t)
      else t)"

definition digits_ok :: "string \<Rightarrow> bool" where
  "digits_ok t \<longleftrightarrow>
     t \<noteq> [] \<and> hd t \<noteq> CHR ''_'' \<and> last t \<noteq> CHR ''_''
     \<and> list_all (\<lambda>c. c = CHR ''_'' \<or> hex_digit c \<noteq> None) t
     \<and> list_all (\<lambda>p. \<not> (fst p = CHR ''_'' \<and> snd p = CHR ''_'')) (zip t (tl t))"

definition digits_val :: "string \<Rightarrow> int" where
  "digits_val t =
     foldl (\<lambda>n c. 16 * n + int (case hex_digit c of Some v \<Rightarrow> v | None \<Rightarrow> 0)) 0
       (filter (\<lambda>c. c \<noteq> CHR ''_'') t)"

definition py_int16 :: "string \<Rightarrow> int option" where
  "py_int16 s =
     (let t = rev (dropWhile int_space (rev (dropWhile int_space s)));
          sg = drop_sign t;
          d = drop_0x (snd sg)
      in if digits_ok d then Some (if fst sg then - digits_val d else digits_val d) else None)"

text \<open>
  A client without credentials, and the worlds of the examples. Their routes hold
  strings only, so \<open>sorted_raises\<close> is never asked there; it is set to answer yes.
  \<open>always out\<close> is a gateway that gives the same answer to every request.
\<close>

definition k0 :: kong where
  "k0 = \<lparr>base_url = ''http://kong:8001'', auth = None, headers = []\<rparr>"

definition always :: "outcome \<Rightarrow> world" where
  "always out = \<lparr>respond = (\<lambda>l. out), int16 = py_int16, sorted_raises = (\<lambda>xs. True), sent = []\<rparr>"

subsection \<open>An example gateway\<close>

text \<open>
  A small gateway for the examples: one service with two routes, one consumer, four
  plugins listed on two pages and one more bound to a route and the consumer. Its answer depends on the latest request only.
\<close>

definition svc1_id :: string where "svc1_id = ''11111111-1111-1111-1111-111111111111''"
definition r1_id :: string where "r1_id = ''22222222-2222-2222-2222-222222222222''"
definition bob_id :: string where "bob_id = ''33333333-3333-3333-3333-333333333333''"

definition cors_global :: json where
  "cors_global = JObj [(''id'', JStr ''a1''), (''name'', JStr ''cors''),
     (''service'', JNull), (''route'', JNull), (''consumer'', JNull)]"

definition cors_svc1 :: json where
  "cors_svc1 = JObj [(''id'', JStr ''b1''), (''name'', JStr ''cors''),
     (''service'', JObj [(''id'', JStr svc1_id)]), (''route'', JNull), (''consumer'', JNull)]"

definition cors_r1_bob :: json where
  "cors_r1_bob = JObj [(''id'', JStr ''f1''), (''name'', JStr ''cors''),
     (''route'', JObj [(''id'', JStr r1_id)]), (''consumer'', JObj [(''id'', JStr bob_id)])]"

definition acl_one :: json where
  "acl_one = JObj [(''id'', JStr ''c1''), (''name'', JStr ''acl'')]"

definition acl_two :: json where
  "acl_two = JObj [(''id'', JStr ''d1''), (''name'', JStr ''acl'')]"

definition page1 :: json where
  "page1 = JObj [(''data'', JArr [cors_global, cors_svc1]), (''next'', JStr ''/plugins?offset=2'')]"

definition page2 :: json where
  "page2 = JObj [(''data'', JArr [acl_one, acl_two]), (''next'', JNull)]"

definition route_ab :: json where
  "route_ab = JObj [(''id'', JStr r1_id), (''name'', JStr ''r1''),
     (''hosts'', JArr [JStr ''a'', JStr ''b'']), (''paths'', JNull), (''methods'', JNull)]"

definition route_cc :: json where
  "route_cc = JObj [(''id'', JStr ''44444444-4444-4444-4444-444444444444''),
     (''hosts'', JArr [JStr ''c'', JStr ''c'']), (''protocols'', JArr [])]"

definition not_found :: outcome where
  "not_found = Response 404 (Some (JObj [(''message'', JStr ''Not found'')]))"

definition answer :: "request \<Rightarrow> outcome" where
  "answer r =
     (let a = address r in
      if meth r = GET then
        (if a = ''http://kong:8001/services/svc1'' then Response 200 (Some (JObj [(''id'', JStr svc1_id), (''name'', JStr ''svc1'')]))
         else if a = ''http://kong:8001/routes/r1'' then Response 200 (Some (JObj [(''id'', JStr r1_id), (''name'', JStr ''r1'')]))
         else if a = ''http://kong:8001/consumers/bob'' then Response 200 (Some (JObj [(''id'', JStr bob_id), (''username'', JStr ''bob'')]))
         else if a = ''http://kong:8001/plugins'' then Response 200 (Some page1)
         else if a = ''http://kong:8001/plugins?offset=2'' then Response 200 (Some page2)
         else if a = ''http://kong:8001/services/svc1/plugins''
           then Response 200 (Some (JObj [(''data'', JArr [cors_svc1]), (''next'', JNull)]))
         else if a = ''http://kong:8001/consumers/bob/plugins''
           then Response 200 (Some (JObj [(''data'', JArr [cors_r1_bob]), (''next'', JNull)]))
         else if a = ''http://kong:8001/services/svc1/routes''
           then Response 200 (Some (JObj [(''data'', JArr [route_ab, route_cc]), (''next'', JNull)]))
         else not_found)
      else if meth r = POST then Response 201 (Some (JObj [(''id'', JStr ''e1'')]))
      else if meth r = PATCH then Response 200 (Some (JObj [(''id'', JStr ''a1'')]))
      else if meth r = DELETE then Response 204 None
      else not_found)"

definition demo :: world where
  "demo = \<lparr>respond = (\<lambda>l. answer (last l)), int16 = py_int16, sorted_raises = (\<lambda>xs. True), sent = []\<rparr>"

text \<open>A state of the example: the client \<open>k0\<close> talking to the example gateway.\<close>

definition on_demo :: "st \<Rightarrow> bool" where
  "on_demo s \<longleftrightarrow> fst s = k0 \<and> respond (snd s) = (\<lambda>l. answer (last l)) \<and> int16 (snd s) = py_int16"

definition get_req :: "string \<Rightarrow> request" where
  "get_req a = request_of GET a None k0"

definition all_plugins :: json where
  "all_plugins = JObj [(''data'', JArr [cors_global, cors_svc1, acl_one, acl_two]), (''next'', JStr ''/plugins?offset=2'')]"

definition after_listing :: "st \<Rightarrow> st" where
  "after_listing s = log_req (get_req ''http://kong:8001/plugins?offset=2'') (log_req (get_req ''http://kong:8001/plugins'') s)"

definition demo_config :: "(string \<times> json) list" where
  "demo_config = [(''a'', JNum 1), (''b'', JObj [(''c'', JNum 2)])]"

definition demo_payload :: "(string \<times> json) list" where
  "demo_payload = [(''name'', JStr ''cors''), (''config.a'', JNum 1),
     (''config.b'', JObj [(''c'', JNum 2)]), (''service.id'', JStr svc1_id)]"

definition after_svc1_listing :: "st \<Rightarrow> st" where
  "after_svc1_listing s = log_req (get_req ''http://kong:8001/services/svc1/plugins'')
     (log_req (get_req ''http://kong:8001/services/svc1'') s)"

definition demo_payload_rc :: "(string \<times> json) list" where
  "demo_payload_rc = [(''name'', JStr ''cors''), (''config.a'', JNum 1),
     (''config.b'', JObj [(''c'', JNum 2)]), (''route.id'', JStr r1_id),
     (''consumer.id'', JStr bob_id)]"

definition after_r1_bob :: "st \<Rightarrow> st" where
  "after_r1_bob s = log_req (get_req ''http://kong:8001/consumers/bob'')
     (log_req (get_req ''http://kong:8001/routes/r1'') s)"

definition after_bob_listing :: "st \<Rightarrow> st" where
  "after_bob_listing s = log_req (get_req ''http://kong:8001/consumers/bob/plugins'') (after_r1_bob s)"

text \<open>
  List responses. A page is a dict with a \<open>data\<close> array; \<open>cursor_request\<close> is the GET that
  follows the \<open>next\<close> cursor of a page, the cursor taken as a path under the base address
  with the slashes at its ends stripped.
\<close>

definition is_list_page :: "json \<Rightarrow> bool" where
  "is_list_page p = (case getitem p ''data'' of Inr (JArr xs) \<Rightarrow> True | _ \<Rightarrow> False)"

definition items_of :: "json \<Rightarrow> json list" where
  "items_of p = (case getitem p ''data'' of Inr (JArr xs) \<Rightarrow> xs | _ \<Rightarrow> [])"

definition cursor_request :: "json \<Rightarrow> kong \<Rightarrow> request" where
  "cursor_request res k =
     (case getitem res ''next'' of
        Inr (JStr c) \<Rightarrow> request_of GET (base_url k @ ''/'' @ py_strip ''/'' c) None k
      | _ \<Rightarrow> request_of GET (base_url k) None k)"

text \<open>
  \<open>serves res ps s\<close>: from state \<open>s\<close> on, the gateway answers the cursor of \<open>res\<close> and of
  each further page with the next page of \<open>ps\<close>, and the cursor of the last page is
  false. \<open>follow res ps s\<close> is the state after these requests.
\<close>

fun serves :: "json \<Rightarrow> json list \<Rightarrow> st \<Rightarrow> bool" where
  "serves res [] s = (case getitem res ''next'' of Inr nx \<Rightarrow> \<not> py_bool nx | Inl e \<Rightarrow> False)"
| "serves res (p # ps) s =
     (case getitem res ''next'' of
        Inr (JStr c) \<Rightarrow>
          c \<noteq> []
          \<and> (case respond (snd s) (sent (snd s) @ [cursor_request res (fst s)]) of
               Response code (Some b) \<Rightarrow> \<not> is_http_error code \<and> b = p
             | _ \<Rightarrow> False)
          \<and> serves p ps (log_req (cursor_request res (fst s)) s)
      | _ \<Rightarrow> False)"

fun follow :: "json \<Rightarrow> json list \<Rightarrow> st \<Rightarrow> st" where
  "follow res [] s = s"
| "follow res (p # ps) s = follow p ps (log_req (cursor_request res (fst s)) s)"

text \<open>
  The strings of a list-valued field of a route (none when the field is absent or
  \<open>null\<close>), the routes all four of whose fields are absent, \<open>null\<close> or lists of strings,
  and equivalence of a route and a desired specification as the code decides it: each
  field has the same strings as the desired list, as often.
\<close>

definition field_strs :: "json \<Rightarrow> string \<Rightarrow> string list" where
  "field_strs r k = (case dict_get r k of Inr (JArr xs) \<Rightarrow> map the_str xs | _ \<Rightarrow> [])"

definition str_list_field :: "json \<Rightarrow> string \<Rightarrow> bool" where
  "str_list_field r k =
     (case dict_get r k of Inr JNull \<Rightarrow> True | Inr (JArr xs) \<Rightarrow> list_all is_str xs | _ \<Rightarrow> False)"

definition wf_route :: "json \<Rightarrow> bool" where
  "wf_route r \<longleftrightarrow> str_list_field r ''hosts'' \<and> str_list_field r ''paths''
     \<and> str_list_field r ''methods'' \<and> str_list_field r ''protocols''"

definition route_equiv :: "string list \<Rightarrow> string list \<Rightarrow> string list \<Rightarrow> string list \<Rightarrow> json \<Rightarrow> bool" where
  "route_equiv hosts paths methods protocols r \<longleftrightarrow>
     mset (field_strs r ''hosts'') = mset hosts \<and> mset (field_strs r ''paths'') = mset paths
     \<and> mset (field_strs r ''methods'') = mset methods
     \<and> mset (field_strs r ''protocols'') = mset protocols"

definition after_routes :: "st \<Rightarrow> st" where
  "after_routes s = log_req (get_req ''http://kong:8001/services/svc1/routes'')
     (log_req (get_req ''http://kong:8001/services/svc1'') s)"

subsection \<open>Queries only read\<close>

lemma only_reads_refl: "only_reads s s"
  by (simp add: only_reads_def issued_def)

lemma only_reads_trans:
  assumes "only_reads s s1" and "only_reads s1 s2"
  shows "only_reads s s2"
proof -
  from assms have a: "sent (snd s1) = sent (snd s) @ issued s s1"
    and b: "sent (snd s2) = sent (snd s1) @ issued s1 s2"
    by (simp_all add: only_reads_def)
  have c: "issued s s2 = issued s s1 @ issued s1 s2"
    using a b by (simp add: issued_def) (metis append.assoc append_eq_conv_conj)
  show ?thesis
    using assms a b c by (simp add: only_reads_def)
qed

lemma kong_get_reads: "kong_get u s = (r, s') \<Longrightarrow> only_reads s s'"
  by (auto simp: kong_get_def send_def body_json_def Let_def only_reads_def issued_def
      split: sum.splits outcome.splits prod.splits option.splits if_splits)

lemma route_get_reads: "route_get n s = (r, s') \<Longrightarrow> only_reads s s'"
  by (auto simp: route_get_def split: prod.splits sum.splits error.splits dest: kong_get_reads)

lemma service_get_reads: "service_get n s = (r, s') \<Longrightarrow> only_reads s s'"
  by (auto simp: service_get_def split: prod.splits sum.splits error.splits dest: kong_get_reads)

lemma consumer_get_reads: "consumer_get n s = (r, s') \<Longrightarrow> only_reads s s'"
  by (auto simp: consumer_get_def split: prod.splits sum.splits error.splits dest: kong_get_reads)

lemma resolve_id_reads:
  assumes g: "\<And>n s r s'. getter n s = (r, s') \<Longrightarrow> only_reads s s'"
    and r: "resolve_id getter msg n s = (r, s')"
  shows "only_reads s s'"
proof -
  obtain r0 s0 where e: "getter n s = (r0, s0)" by (cases "getter n s")
  have "s' = s0"
    using r e by (auto simp: resolve_id_def split: sum.splits if_splits)
  with g[OF e] show ?thesis by simp
qed

lemma bind_step_reads:
  assumes g: "\<And>n s r s'. getter n s = (r, s') \<Longrightarrow> only_reads s s'"
    and r: "bind_step getter coll msg a u s = (r, s')"
  shows "only_reads s s'"
proof (cases "arg_bool a")
  case True
  obtain r0 s0 where e: "resolve_id getter msg (arg_str a) s = (r0, s0)"
    by (cases "resolve_id getter msg (arg_str a) s")
  have "s' = s0"
    using r e True by (auto simp: bind_step_def split: sum.splits)
  with resolve_id_reads[OF g e] show ?thesis by simp
next
  case False
  with r show ?thesis by (simp add: bind_step_def only_reads_refl)
qed

lemma query_bindings_reads:
  assumes "query_bindings sn rn cn pid s = (r, s')"
  shows "only_reads s s'"
proof -
  let ?u = "if arg_bool pid then [JStr ''plugins'', arg_json pid] else [JStr ''plugins'']"
  obtain r1 s1 where e1: "bind_step service_get ''services''
                service_gone sn ?u s = (r1, s1)"
    using prod.exhaust by blast
  note o1 = bind_step_reads[OF service_get_reads e1]
  show ?thesis
  proof (cases r1)
    case (Inl e)
    with assms e1 have "s' = s1" by (simp add: query_bindings_def)
    with o1 show ?thesis by simp
  next
    case (Inr x1)
    obtain u1 sid where x1: "x1 = (u1, sid)" by (cases x1)
    obtain r2 s2 where e2: "bind_step route_get ''routes''
                route_gone rn u1 s1 = (r2, s2)"
      using prod.exhaust by blast
    note o2 = only_reads_trans[OF o1 bind_step_reads[OF route_get_reads e2]]
    show ?thesis
    proof (cases r2)
      case (Inl e)
      with assms e1 e2 Inr x1 have "s' = s2" by (simp add: query_bindings_def)
      with o2 show ?thesis by simp
    next
      case (Inr x2)
      obtain u2 rid where x2: "x2 = (u2, rid)" by (cases x2)
      obtain r3 s3 where e3: "bind_step consumer_get ''consumers''
                consumer_gone cn u2 s2 = (r3, s3)"
        using prod.exhaust by blast
      note o3 = only_reads_trans[OF o2 bind_step_reads[OF consumer_get_reads e3]]
      have "s' = s3"
        using assms e1 e2 e3 \<open>r1 = Inr x1\<close> x1 Inr x2
        by (auto simp: query_bindings_def split: sum.splits)
      with o3 show ?thesis by simp
    qed
  qed
qed

lemma walk_reads_aux:
  assumes "walk plugins0 res0 s0 = Some y0"
  shows "only_reads s0 (snd y0)"
proof (rule walk.raw_induct[where P = "\<lambda>plugins res s y. only_reads s (snd y)", OF _ assms], goal_cases)
  case (1 walk plugins res s y)
  note IH = "1"(1) and body = "1"(2)
  show ?case
  proof (cases "getitem res ''next''")
    case (Inl e)
    with body show ?thesis by (auto simp: only_reads_refl)
  next
    case (Inr nx)
    show ?thesis
    proof (cases "py_bool nx")
      case False
      with body Inr show ?thesis by (auto simp: only_reads_refl)
    next
      case True
      show ?thesis
      proof (cases nx)
        case (JStr c)
        obtain r1 s1 where g: "kong_get (UStr (py_strip ''/'' c)) s = (r1, s1)"
          by (cases "kong_get (UStr (py_strip ''/'' c)) s")
        note o1 = kong_get_reads[OF g]
        from body Inr True JStr
        have "snd y = s1 \<or> (\<exists>p r. walk p r s1 = Some y)"
          by (cases r1) (auto simp: g split: sum.splits)
        then show ?thesis
        proof
          assume "snd y = s1"
          with o1 show ?thesis by simp
        next
          assume "\<exists>p r. walk p r s1 = Some y"
          then obtain p r where "walk p r s1 = Some y" by blast
          from only_reads_trans[OF o1 IH[OF this]] show ?thesis .
        qed
      qed (use body Inr True in \<open>auto simp: only_reads_refl\<close>)
    qed
  qed
qed

lemma walk_reads: "walk plugins res s = Some (r, s') \<Longrightarrow> only_reads s s'"
  using walk_reads_aux by fastforce

lemma plugin_query_reads:
  assumes "plugin_query n sn rn cn pid s = Some (r, s')"
  shows "only_reads s s'"
proof (cases "pid = ANone \<and> n = ANone")
  case True
  with assms show ?thesis by (auto simp: plugin_query_def only_reads_refl)
next
  case False
  obtain r1 s1 where e1: "query_bindings sn rn cn pid s = (r1, s1)" by (cases "query_bindings sn rn cn pid s")
  note o1 = query_bindings_reads[OF e1]
  show ?thesis
  proof (cases r1)
    case (Inl e)
    with assms False e1 have "s' = s1" by (auto simp: plugin_query_def)
    with o1 show ?thesis by simp
  next
    case (Inr x)
    obtain u sid rid cid where x: "x = (u, sid, rid, cid)" by (cases x)
    obtain r2 s2 where e2: "kong_get (UList u) s1 = (r2, s2)" by (cases "kong_get (UList u) s1")
    note o2 = only_reads_trans[OF o1 kong_get_reads[OF e2]]
    show ?thesis
    proof (cases r2)
      case (Inl e)
      with assms False e1 e2 Inr x have "s' = s2" by (auto simp: plugin_query_def)
      with o2 show ?thesis by simp
    next
      case (Inr page)
      from assms False e1 e2 \<open>r1 = Inr x\<close> x Inr
      obtain r3 s3 where e3: "walk page page s2 = Some (r3, s3)" and "s' = s3"
        by (auto simp: plugin_query_def split: option.splits sum.splits prod.splits)
      with only_reads_trans[OF o2 walk_reads[OF e3]] show ?thesis by simp
    qed
  qed
qed

subsection \<open>The adapter\<close>

lemma send_eq: "send m u d s = (respond (snd s) (sent (snd s) @ [request_of m u d (fst s)]), log_req (request_of m u d (fst s)) s)"
  by (simp add: send_def request_of_def log_req_def Let_def)

lemma adapter_get: "fst (snd (kong_get u s)) = fst s"
  by (simp add: kong_get_def send_def body_json_def Let_def split: sum.splits outcome.splits prod.splits option.splits)

lemma adapter_put: "fst (snd (kong_put u d s)) = fst s"
  by (simp add: kong_put_def send_def body_json_def Let_def split: sum.splits outcome.splits prod.splits option.splits)

lemma adapter_delete: "fst (snd (kong_delete u s)) = fst s"
  by (simp add: kong_delete_def send_def body_json_def Let_def split: sum.splits outcome.splits prod.splits option.splits)

lemma adapter_post: "fst (snd (kong_post u d h s)) = fst (merge_headers h s)"
  by (simp add: kong_post_def send_def body_json_def Let_def split: sum.splits outcome.splits prod.splits option.splits)

lemma adapter_patch: "fst (snd (kong_patch u d h s)) = fst (merge_headers h s)"
  by (simp add: kong_patch_def send_def body_json_def Let_def split: sum.splits outcome.splits prod.splits option.splits)

lemma merge_headers_fields:
  "base_url (fst (merge_headers h s)) = base_url (fst s)"
  "auth (fst (merge_headers h s)) = auth (fst s)"
  "headers (fst (merge_headers h s)) =
     (case h of JObj kvs \<Rightarrow> dict_update (headers (fst s)) kvs | _ \<Rightarrow> headers (fst s))"
  by (auto simp: merge_headers_def dict_update_def split: json.splits)

text \<open>
  C9, as amended. No request method changes the base address or the basic-auth pair of the
  adapter, and \<open>_get\<close>, \<open>_put\<close> and \<open>_delete\<close> leave the header map alone too. \<open>_post\<close> and
  \<open>_patch\<close> merge a dict of extra headers into the adapter's header map, where later
  calls find it; without such a dict they change nothing.
\<close>

theorem adapter_fields_after_request:
  "fst (snd (kong_get u s)) = fst s
   \<and> fst (snd (kong_put u d s)) = fst s
   \<and> fst (snd (kong_delete u s)) = fst s
   \<and> fst (snd (kong_post u d h s)) = fst (merge_headers h s)
   \<and> fst (snd (kong_patch u d h s)) = fst (merge_headers h s)
   \<and> base_url (fst (merge_headers h s)) = base_url (fst s)
   \<and> auth (fst (merge_headers h s)) = auth (fst s)
   \<and> headers (fst (merge_headers h s)) =
       (case h of JObj kvs \<Rightarrow> dict_update (headers (fst s)) kvs | _ \<Rightarrow> headers (fst s))"
  by (simp add: adapter_get adapter_put adapter_delete adapter_post adapter_patch merge_headers_fields)

text \<open>
  C9 as stated fails: a \<open>_post\<close> with a content-type header, as \<open>route_apply\<close> makes it,
  leaves that header in the adapter's header map, which was empty before.
\<close>

theorem post_changes_headers:
  "headers (fst (snd (kong_post (UStr ''routes'') None
       (JObj [(''content-type'', JStr ''application/json'')])
       (k0, always (Response 201 (Some (JObj [])))))))
     = [(''content-type'', JStr ''application/json'')]
   \<and> headers k0 = []"
  by (simp add: adapter_post merge_headers_def dict_update_def k0_def)

lemma kong_url_list2: "kong_url k (UList [JStr a, JStr b]) = Inr (base_url k @ ''/'' @ a @ ''/'' @ b)"
  by (simp add: kong_url_def)

lemma route_get_eval:
  "route_get rid s =
     (case respond (snd s) (sent (snd s) @ [request_of GET (base_url (fst s) @ ''/routes/'' @ rid) None (fst s)]) of
        NoResponse \<Rightarrow> Inl RequestFailure
      | Response c b \<Rightarrow>
          if 400 \<le> c \<and> c < 600 then Inr JNull
          else (case b of None \<Rightarrow> Inl JSONDecodeError | Some j \<Rightarrow> Inr j),
      log_req (request_of GET (base_url (fst s) @ ''/routes/'' @ rid) None (fst s)) s)"
  by (cases "respond (snd s) (sent (snd s) @ [request_of GET (base_url (fst s) @ ''/routes/'' @ rid) None (fst s)])")
     (auto simp: route_get_def kong_get_def kong_url_list2 send_eq body_json_def is_http_error_def
      split: option.splits)

text \<open>
  C6, as amended. \<open>route_get\<close> makes one GET on \<open>routes/<id>\<close>. It returns the parsed body
  when the status is outside 400 to 599, returns \<open>None\<close> for every status from 400 to 599
  (404 is one of them), and passes on the failures that are not HTTP statuses: no
  response, or a body that is not JSON.
\<close>

theorem route_get_outcome:
  "route_get rid s =
     (case respond (snd s) (sent (snd s) @ [request_of GET (base_url (fst s) @ ''/routes/'' @ rid) None (fst s)]) of
        NoResponse \<Rightarrow> Inl RequestFailure
      | Response c b \<Rightarrow>
          if 400 \<le> c \<and> c < 600 then Inr JNull
          else (case b of None \<Rightarrow> Inl JSONDecodeError | Some j \<Rightarrow> Inr j),
      log_req (request_of GET (base_url (fst s) @ ''/routes/'' @ rid) None (fst s)) s)"
  by (cases "respond (snd s) (sent (snd s) @ [request_of GET (base_url (fst s) @ ''/routes/'' @ rid) None (fst s)])")
     (auto simp: route_get_def kong_get_def kong_url_list2 send_eq body_json_def is_http_error_def
      split: option.splits)

text \<open>
  C6 as stated fails: a gateway that answers 500 is not reporting "not found", yet
  \<open>route_get\<close> returns \<open>None\<close>.
\<close>

theorem route_get_none_on_500:
  "respond (always (Response 500 (Some (JObj [(''message'', JStr ''An unexpected error occurred'')])))) 
      [request_of GET ''http://kong:8001/routes/r1'' None k0] = Response 500 (Some (JObj [(''message'', JStr ''An unexpected error occurred'')]))
   \<and> fst (route_get ''r1'' (k0, always (Response 500 (Some (JObj [(''message'', JStr ''An unexpected error occurred'')]))))) = Inr JNull"
  by (simp add: route_get_eval always_def)

subsection \<open>The precondition of \<open>plugin_query\<close>\<close>

lemma kong_url_error: "kong_url k u = Inl e \<Longrightarrow> e = TypeError"
  by (auto simp: kong_url_def Let_def split: if_splits)

lemma kong_get_error: "kong_get u s \<noteq> (Inl (ValueError m), s')"
  by (auto simp: kong_get_def body_json_def send_def Let_def
      split: sum.splits prod.splits outcome.splits if_splits option.splits dest: kong_url_error)

lemma route_get_error: "route_get n s \<noteq> (Inl (ValueError m), s')"
  using kong_get_error[of "UList [JStr ''routes'', JStr n]" s m s']
  by (auto simp: route_get_def split: prod.splits sum.splits error.splits)

lemma service_get_error: "service_get n s \<noteq> (Inl (ValueError m), s')"
  using kong_get_error[of "UList [JStr ''services'', JStr n]" s m s']
  by (auto simp: service_get_def split: prod.splits sum.splits error.splits)

lemma consumer_get_error: "consumer_get n s \<noteq> (Inl (ValueError m), s')"
  using kong_get_error[of "UList [JStr ''consumers'', JStr n]" s m s']
  by (auto simp: consumer_get_def split: prod.splits sum.splits error.splits)

lemma py_uuid_error: "py_uuid w v \<noteq> Inl (ValueError m)"
  by (cases v) (auto split: if_splits option.splits)

lemma dict_get_error: "dict_get v k = Inl e \<Longrightarrow> e = AttributeError"
  by (cases v) (auto split: option.splits)

lemma resolve_id_error:
  assumes g: "\<forall>n s s' m. getter n s \<noteq> (Inl (ValueError m), s')"
  shows "resolve_id getter msg n s \<noteq> (Inl (ValueError m), s')"
proof
  assume r: "resolve_id getter msg n s = (Inl (ValueError m), s')"
  obtain r0 s0 where e: "getter n s = (r0, s0)" by (cases "getter n s")
  show False
  proof (cases r0)
    case (Inl e0)
    with r e have "e0 = ValueError m" by (simp add: resolve_id_def)
    with g e Inl show ?thesis by blast
  next
    case (Inr v)
    with r e py_uuid_error show ?thesis
      by (cases v) (auto simp: resolve_id_def split: sum.splits if_splits option.splits)
  qed
qed

lemma bind_step_error:
  assumes g: "\<forall>n s s' m. getter n s \<noteq> (Inl (ValueError m), s')"
  shows "bind_step getter coll msg a u s \<noteq> (Inl (ValueError m), s')"
  using resolve_id_error[OF g, of msg "arg_str a" s m s']
  by (auto simp: bind_step_def split: if_splits sum.splits prod.splits)

lemma query_bindings_error: "query_bindings sn rn cn pid s \<noteq> (Inl (ValueError m), s')"
proof
  assume asm: "query_bindings sn rn cn pid s = (Inl (ValueError m), s')"
  have sg: "\<forall>n s s' m. service_get n s \<noteq> (Inl (ValueError m), s')"
    and rg: "\<forall>n s s' m. route_get n s \<noteq> (Inl (ValueError m), s')"
    and cg: "\<forall>n s s' m. consumer_get n s \<noteq> (Inl (ValueError m), s')"
    using service_get_error route_get_error consumer_get_error by blast+
  let ?u = "if arg_bool pid then [JStr ''plugins'', arg_json pid] else [JStr ''plugins'']"
  obtain r1 s1 where e1: "bind_step service_get ''services''
                service_gone sn ?u s = (r1, s1)"
    using prod.exhaust by blast
  show False
  proof (cases r1)
    case (Inl e)
    with asm e1 have "e = ValueError m" by (simp add: query_bindings_def)
    with e1 Inl bind_step_error[OF sg] show ?thesis by blast
  next
    case (Inr x1)
    obtain u1 sid where x1: "x1 = (u1, sid)" by (cases x1)
    obtain r2 s2 where e2: "bind_step route_get ''routes''
                route_gone rn u1 s1 = (r2, s2)"
      using prod.exhaust by blast
    show ?thesis
    proof (cases r2)
      case (Inl e)
      with asm e1 e2 Inr x1 have "e = ValueError m" by (simp add: query_bindings_def)
      with e2 Inl bind_step_error[OF rg] show ?thesis by blast
    next
      case (Inr x2)
      obtain u2 rid where x2: "x2 = (u2, rid)" by (cases x2)
      have "bind_step consumer_get ''consumers''
                consumer_gone cn u2 s2 = (Inl (ValueError m), s')"
        using asm e1 e2 \<open>r1 = Inr x1\<close> x1 Inr x2
        by (auto simp: query_bindings_def split: sum.splits prod.splits)
      with bind_step_error[OF cg] show ?thesis by blast
    qed
  qed
qed

lemma getitem_error: "getitem v k \<noteq> Inl (ValueError m)"
  by (cases v) (auto split: option.splits)

lemma py_iter_error: "py_iter v \<noteq> Inl (ValueError m)"
  by (cases v) auto

lemma py_iadd_error: "py_iadd a b \<noteq> Inl (ValueError m)"
  using py_iter_error[of b m]
  by (cases "(a, b)" rule: py_iadd.cases)
     (auto split: sum.splits option.splits if_splits)

lemma walk_error:
  assumes "walk plugins0 res0 s0 = Some y0"
  shows "fst y0 \<noteq> Inl (ValueError m)"
proof (rule walk.raw_induct[where P = "\<lambda>plugins res s y. fst y \<noteq> Inl (ValueError m)", OF _ assms], goal_cases)
  case (1 walk plugins res s y)
  note IH = "1"(1) and body = "1"(2)
  show ?case
  proof (cases "getitem res ''next''")
    case (Inl e)
    with body getitem_error show ?thesis by auto
  next
    case (Inr nx)
    show ?thesis
    proof (cases "py_bool nx")
      case False
      with body Inr show ?thesis by auto
    next
      case True
      show ?thesis
      proof (cases nx)
        case (JStr c)
        obtain r1 s1 where g: "kong_get (UStr (py_strip ''/'' c)) s = (r1, s1)"
          by (cases "kong_get (UStr (py_strip ''/'' c)) s")
        from body Inr True JStr
        have "fst y \<noteq> Inl (ValueError m) \<or> (\<exists>p r. walk p r s1 = Some y)"
          using kong_get_error[of "UStr (py_strip ''/'' c)" s m s1] getitem_error py_iadd_error
          by (cases r1) (auto simp: g split: sum.splits)
        then show ?thesis
        proof
          assume "\<exists>p r. walk p r s1 = Some y"
          then obtain p r where "walk p r s1 = Some y" by blast
          from IH[OF this] show ?thesis .
        qed
      qed (use body Inr True in auto)
    qed
  qed
qed

lemma plugin_matches_error: "plugin_matches n c sv r p = Inl e \<Longrightarrow> e = AttributeError"
  by (auto simp: plugin_matches_def binding_ok_def
      split: sum.splits if_splits bool.splits dest: dict_get_error)

lemma filter_plugins_error: "filter_plugins n c sv r ps = Inl e \<Longrightarrow> e = AttributeError"
  by (induction ps arbitrary: e) (auto split: sum.splits dest: plugin_matches_error)

lemma plugin_query_value_error:
  assumes "plugin_query n sn rn cn pid s = Some (Inl (ValueError m), s')"
  shows "pid = ANone \<and> n = ANone"
proof (rule ccontr)
  assume no: "\<not> (pid = ANone \<and> n = ANone)"
  obtain r1 s1 where e1: "query_bindings sn rn cn pid s = (r1, s1)" by (cases "query_bindings sn rn cn pid s")
  show False
  proof (cases r1)
    case (Inl e)
    with assms no e1 query_bindings_error[of sn rn cn pid s m s1] show False
      by (auto simp: plugin_query_def)
  next
    case (Inr x)
    obtain u sid rid cid where x: "x = (u, sid, rid, cid)" by (cases x)
    obtain r2 s2 where e2: "kong_get (UList u) s1 = (r2, s2)" by (cases "kong_get (UList u) s1")
    show False
    proof (cases r2)
      case (Inl e)
      with assms no e1 e2 Inr x kong_get_error[of "UList u" s1 m s2] show False
        by (auto simp: plugin_query_def)
    next
      case (Inr page)
      from assms no e1 e2 \<open>r1 = Inr x\<close> x Inr
      obtain y where e3: "walk page page s2 = Some y"
        and rest: "(case y of (Inl e, s3) \<Rightarrow> Some (Inl e, s3)
           | (Inr plugins, s3) \<Rightarrow>
          (case getitem plugins ''data'' of
             Inl e \<Rightarrow> Some (Inl e, s3)
           | Inr d \<Rightarrow>
          (case py_iter d of
             Inl e \<Rightarrow> Some (Inl e, s3)
           | Inr items \<Rightarrow>
          (case filter_plugins n cid sid rid items of
             Inl e \<Rightarrow> Some (Inl e, s3)
           | Inr result \<Rightarrow> Some (Inr result, s3))))) = Some (Inl (ValueError m), s')"
        by (auto simp: plugin_query_def split: option.splits)
      from walk_error[OF e3, of m] rest getitem_error py_iter_error show False
        by (auto split: sum.splits prod.splits dest: filter_plugins_error)
    qed
  qed
qed

subsection \<open>Runs against the example gateway\<close>

lemma on_demo_start: "on_demo (k0, demo)"
  by (simp add: on_demo_def demo_def)

lemma on_demo_log: "on_demo s \<Longrightarrow> on_demo (log_req r s)"
  by (simp add: on_demo_def log_req_def)

lemma kong_get_eval:
  assumes "kong_url (fst s) u = Inr a"
  shows "kong_get u s =
     (case respond (snd s) (sent (snd s) @ [request_of GET a None (fst s)]) of
        NoResponse \<Rightarrow> Inl RequestFailure
      | Response c b \<Rightarrow>
          if is_http_error c then Inl (HTTPError c)
          else (case b of None \<Rightarrow> Inl JSONDecodeError | Some j \<Rightarrow> Inr j),
      log_req (request_of GET a None (fst s)) s)"
  using assms
  by (auto simp: kong_get_def send_eq body_json_def split: outcome.splits option.splits)

lemma demo_get_plugins:
  "on_demo s \<Longrightarrow> kong_get (UList [JStr ''plugins'']) s = (Inr page1, log_req (get_req ''http://kong:8001/plugins'') s)"
  by (simp add: kong_get_eval[where a = "''http://kong:8001/plugins''"] kong_url_def on_demo_def k0_def
      answer_def request_of_def get_req_def is_http_error_def)

lemma demo_get_page2:
  "on_demo s \<Longrightarrow> kong_get (UStr ''plugins?offset=2'') s = (Inr page2, log_req (get_req ''http://kong:8001/plugins?offset=2'') s)"
  by (simp add: kong_get_eval[where a = "''http://kong:8001/plugins?offset=2''"] kong_url_def on_demo_def k0_def
      answer_def request_of_def get_req_def is_http_error_def)

lemma strip_cursor: "py_strip ''/'' ''/plugins?offset=2'' = ''plugins?offset=2''"
  by (simp add: py_strip_def)

lemma walk_stop:
  assumes "getitem res ''next'' = Inr nx" and "\<not> py_bool nx"
  shows "walk plugins res s = Some (Inr plugins, s)"
  using assms by (subst walk.simps) simp

lemma walk_step:
  assumes "getitem res ''next'' = Inr (JStr c)" and "c \<noteq> []"
    and "kong_get (UStr (py_strip ''/'' c)) s = (Inr res', s')"
    and "getitem plugins ''data'' = Inr a" and "getitem res' ''data'' = Inr b"
    and "py_iadd a b = Inr v"
  shows "walk plugins res s = walk (setitem plugins ''data'' v) res' s'"
  using assms by (subst walk.simps) simp

lemma demo_walk:
  assumes "on_demo s"
  shows "walk page1 page1 s = Some (Inr all_plugins, log_req (get_req ''http://kong:8001/plugins?offset=2'') s)"
proof -
  have "walk page1 page1 s = walk all_plugins page2 (log_req (get_req ''http://kong:8001/plugins?offset=2'') s)"
    by (rule walk_step[where c = "''/plugins?offset=2''" and a = "JArr [cors_global, cors_svc1]"
          and b = "JArr [acl_one, acl_two]", THEN trans])
       (simp_all add: page1_def page2_def strip_cursor demo_get_page2[OF assms, unfolded page2_def] all_plugins_def)
  also have "\<dots> = Some (Inr all_plugins, log_req (get_req ''http://kong:8001/plugins?offset=2'') s)"
    by (rule walk_stop[where nx = JNull]) (simp_all add: page2_def)
  finally show ?thesis .
qed

subsection \<open>Create, update, delete\<close>

lemma merge_headers_none: "merge_headers JNull s = s"
  by (simp add: merge_headers_def)

lemma kong_url_plugins: "kong_url k (UList [JStr ''plugins'']) = Inr (base_url k @ ''/plugins'')"
  by (simp add: kong_url_def)

lemma kong_post_eval:
  assumes "kong_url (fst s) u = Inr a"
  shows "\<exists>r. kong_post u d JNull s = (r, log_req (request_of POST a d (fst s)) s)"
  using assms
  by (auto simp: kong_post_def merge_headers_none send_eq body_json_def
      split: outcome.splits option.splits)

lemma kong_patch_eval:
  assumes "kong_url (fst s) u = Inr a"
  shows "\<exists>r. kong_patch u d JNull s = (r, log_req (request_of PATCH a d (fst s)) s)"
  using assms
  by (auto simp: kong_patch_def merge_headers_none send_eq body_json_def
      split: outcome.splits option.splits)

lemma kong_delete_eval:
  assumes "kong_url (fst s) u = Inr a"
  shows "kong_delete u s =
     (case respond (snd s) (sent (snd s) @ [request_of DELETE a None (fst s)]) of
        NoResponse \<Rightarrow> Inl RequestFailure
      | Response c b \<Rightarrow> if c = 204 then Inr True else Inl (UnexpectedCode c 204),
      log_req (request_of DELETE a None (fst s)) s)"
  using assms
  by (auto simp: kong_delete_def send_eq split: outcome.splits)

lemma apply_binding_reads:
  assumes g: "\<And>n s r s'. getter n s = (r, s') \<Longrightarrow> only_reads s s'"
    and r: "apply_binding getter label key a d s = (r, s')"
  shows "only_reads s s'"
proof (cases "arg_bool a")
  case True
  obtain r0 s0 where e: "getter (arg_str a) s = (r0, s0)" by (cases "getter (arg_str a) s")
  have "s' = s0"
    using r e True by (auto simp: apply_binding_def split: sum.splits if_splits)
  with g[OF e] show ?thesis by simp
next
  case False
  with r show ?thesis by (simp add: apply_binding_def only_reads_refl)
qed

lemma apply_payload_reads:
  assumes "apply_payload name config sn rn cn s = (r, s')"
  shows "only_reads s s'"
proof -
  let ?d0 = "case config of
              JNull \<Rightarrow> Inr [(''name'', arg_json name)]
            | JObj kvs \<Rightarrow> Inr (dict_update [(''name'', arg_json name)] (prepare_config kvs))
            | _ \<Rightarrow> Inl (ValueError (quoted ''config'' @ '' parameter is not a dict''))"
  show ?thesis
  proof (cases ?d0)
    case (Inl e)
    with assms have "s' = s" by (simp add: apply_payload_def)
    then show ?thesis by (simp add: only_reads_refl)
  next
    case (Inr d0)
    obtain r1 s1 where e1: "apply_binding service_get ''Service'' ''service.id'' sn d0 s = (r1, s1)"
      using prod.exhaust by blast
    note o1 = apply_binding_reads[OF service_get_reads e1]
    show ?thesis
    proof (cases r1)
      case (Inl e)
      with assms e1 \<open>?d0 = Inr d0\<close> have "s' = s1" by (simp add: apply_payload_def)
      with o1 show ?thesis by simp
    next
      case (Inr d1)
      obtain r2 s2 where e2: "apply_binding route_get ''Route'' ''route.id'' rn d1 s1 = (r2, s2)"
        using prod.exhaust by blast
      note o2 = only_reads_trans[OF o1 apply_binding_reads[OF route_get_reads e2]]
      show ?thesis
      proof (cases r2)
        case (Inl e)
        with assms e1 e2 \<open>?d0 = Inr d0\<close> \<open>r1 = Inr d1\<close> have "s' = s2" by (simp add: apply_payload_def)
        with o2 show ?thesis by simp
      next
        case (Inr d2)
        with assms e1 e2 \<open>?d0 = Inr d0\<close> \<open>r1 = Inr d1\<close>
        have "apply_binding consumer_get ''Consumer'' ''consumer.id'' cn d2 s2 = (r, s')"
          by (simp add: apply_payload_def)
        from only_reads_trans[OF o2 apply_binding_reads[OF consumer_get_reads this]] show ?thesis .
      qed
    qed
  qed
qed

text \<open>
  C1. Once \<open>plugin_apply\<close> has its payload \<open>d\<close> and the query has returned the matches
  \<open>p\<close>, only GET requests having been made so far: with no match the one further
  request is a POST of \<open>d\<close> to the plugins collection; with one match (whose id is a
  string) it is a PATCH of \<open>d\<close> to \<open>plugins/<id>\<close>; with more than one match nothing
  further is sent and the call fails with a \<open>ValueError\<close> whose message spells out name,
  service, route and consumer. \<open>plugin_delete\<close> fails in the same way on more than one
  match.
\<close>

theorem plugin_apply_decides:
  "(apply_payload name config sn rn cn s = (Inr d, s1)
      \<and> plugin_query name sn rn cn ANone s1 = Some (Inr p, s2) \<longrightarrow>
      only_reads s s2
      \<and> (p = [] \<longrightarrow>
           (\<exists>r. plugin_apply name config sn rn cn s =
              Some (r, log_req (request_of POST (base_url (fst s) @ ''/plugins'') (Some d) (fst s)) s2)))
      \<and> (\<forall>m i. p = [m] \<and> dict_get m ''id'' = Inr (JStr i) \<longrightarrow>
           (\<exists>r. plugin_apply name config sn rn cn s =
              Some (r, log_req (request_of PATCH (base_url (fst s) @ ''/plugins/'' @ i) (Some d) (fst s)) s2)))
      \<and> (1 < length p \<longrightarrow>
           plugin_apply name config sn rn cn s =
             Some (Inl (ValueError (''Multiple Plugin records for name: '' @ quoted (arg_str name)
                     @ '', service: '' @ quoted (arg_str sn) @ '', route: '' @ quoted (arg_str rn)
                     @ '', consumer: '' @ quoted (arg_str cn))), s2)))
   \<and> (plugin_query name sn rn cn ANone s = Some (Inr p', s') \<and> 1 < length p' \<longrightarrow>
        only_reads s s'
        \<and> plugin_delete name sn rn cn s =
             Some (Inl (ValueError (''Found multiple Plugin records for name: '' @ quoted (arg_str name)
                     @ '', service: '' @ quoted (arg_str sn) @ '', route: '' @ quoted (arg_str rn)
                     @ '', consumer: '' @ quoted (arg_str cn))), s'))"
proof (intro conjI impI allI; (elim conjE)?)
  assume pay: "apply_payload name config sn rn cn s = (Inr d, s1)"
    and qry: "plugin_query name sn rn cn ANone s1 = Some (Inr p, s2)"
  have k: "fst s2 = fst s" and rd: "only_reads s s2"
    using only_reads_trans[OF apply_payload_reads[OF pay] plugin_query_reads[OF qry]]
    by (simp_all add: only_reads_def)
  show "only_reads s s2" by (rule rd)
  {
    assume "p = []"
    with pay qry kong_post_eval[of s2 "UList [JStr ''plugins'']" _ "Some d"] k
    show "\<exists>r. plugin_apply name config sn rn cn s =
              Some (r, log_req (request_of POST (base_url (fst s) @ ''/plugins'') (Some d) (fst s)) s2)"
      by (auto simp: plugin_apply_def kong_url_plugins)
  next
    fix m i
    assume "p = [m]" and "dict_get m ''id'' = Inr (JStr i)"
    with pay qry kong_patch_eval[of s2 "UList [JStr ''plugins'', JStr i]" _ "Some d"] k
    show "\<exists>r. plugin_apply name config sn rn cn s =
              Some (r, log_req (request_of PATCH (base_url (fst s) @ ''/plugins/'' @ i) (Some d) (fst s)) s2)"
      by (auto simp: plugin_apply_def kong_url_list2)
  next
    assume "1 < length p"
    with pay qry
    show "plugin_apply name config sn rn cn s =
             Some (Inl (ValueError (''Multiple Plugin records for name: '' @ quoted (arg_str name)
                     @ '', service: '' @ quoted (arg_str sn) @ '', route: '' @ quoted (arg_str rn)
                     @ '', consumer: '' @ quoted (arg_str cn))), s2)"
      by (simp add: plugin_apply_def tuple_str_def)
  }
next
  assume qry: "plugin_query name sn rn cn ANone s = Some (Inr p', s')" and len: "1 < length p'"
  show "only_reads s s'" by (rule plugin_query_reads[OF qry])
  from qry len
  show "plugin_delete name sn rn cn s =
             Some (Inl (ValueError (''Found multiple Plugin records for name: '' @ quoted (arg_str name)
                     @ '', service: '' @ quoted (arg_str sn) @ '', route: '' @ quoted (arg_str rn)
                     @ '', consumer: '' @ quoted (arg_str cn))), s')"
    by (simp add: plugin_delete_def tuple_str_def)
qed

lemma demo_no_bindings:
  "\<not> arg_bool cn \<Longrightarrow> query_bindings ANone ANone cn ANone s = (Inr ([JStr ''plugins''], None, None, None), s)"
  by (simp add: query_bindings_def bind_step_def)

lemma demo_filter_cors:
  "filter_plugins (AStr ''cors'') None None None [cors_global, cors_svc1, acl_one, acl_two] = Inr [cors_global]"
  by (simp add: plugin_matches_def binding_ok_def cors_global_def cors_svc1_def acl_one_def acl_two_def)

lemma demo_filter_acl:
  "filter_plugins (AStr ''acl'') None None None [cors_global, cors_svc1, acl_one, acl_two] = Inr [acl_one, acl_two]"
  by (simp add: plugin_matches_def binding_ok_def cors_global_def cors_svc1_def acl_one_def acl_two_def)

lemma demo_filter_jwt:
  "filter_plugins (AStr ''jwt'') None None None [cors_global, cors_svc1, acl_one, acl_two] = Inr []"
  by (simp add: plugin_matches_def binding_ok_def cors_global_def cors_svc1_def acl_one_def acl_two_def)

lemma demo_query:
  assumes "on_demo s" and "\<not> arg_bool cn"
    and "filter_plugins (AStr n) None None None [cors_global, cors_svc1, acl_one, acl_two] = Inr ps"
  shows "plugin_query (AStr n) ANone ANone cn ANone s = Some (Inr ps, after_listing s)"
  using assms(3)
  by (simp add: plugin_query_def demo_no_bindings[OF assms(2)] demo_get_plugins[OF assms(1)]
      demo_walk[OF on_demo_log[OF assms(1)]] after_listing_def all_plugins_def)

lemma demo_payload_plain:
  "\<not> arg_bool cn \<Longrightarrow> apply_payload (AStr n) JNull ANone ANone cn s = (Inr [(''name'', JStr n)], s)"
  by (simp add: apply_payload_def apply_binding_def)

theorem plugin_apply_decides_witness:
  "map_option snd (plugin_apply (AStr ''jwt'') JNull ANone ANone AFalse (k0, demo))
     = Some (log_req (request_of POST ''http://kong:8001/plugins'' (Some [(''name'', JStr ''jwt'')]) k0)
               (after_listing (k0, demo)))
   \<and> map_option snd (plugin_apply (AStr ''cors'') JNull ANone ANone AFalse (k0, demo))
     = Some (log_req (request_of PATCH ''http://kong:8001/plugins/a1'' (Some [(''name'', JStr ''cors'')]) k0)
               (after_listing (k0, demo)))
   \<and> plugin_apply (AStr ''acl'') JNull ANone ANone AFalse (k0, demo)
     = Some (Inl (ValueError (''Multiple Plugin records for name: '' @ quoted ''acl''
               @ '', service: '' @ quoted ''None'' @ '', route: '' @ quoted ''None''
               @ '', consumer: '' @ quoted ''False'')), after_listing (k0, demo))
   \<and> plugin_delete (AStr ''acl'') ANone ANone AFalse (k0, demo)
     = Some (Inl (ValueError (''Found multiple Plugin records for name: '' @ quoted ''acl''
               @ '', service: '' @ quoted ''None'' @ '', route: '' @ quoted ''None''
               @ '', consumer: '' @ quoted ''False'')), after_listing (k0, demo))"
proof -
  have f: "\<not> arg_bool AFalse" by simp
  note q = demo_query[OF on_demo_start f]
  note pay = demo_payload_plain[OF f, of _ "(k0, demo)"]
  note ap = plugin_apply_decides[THEN conjunct1, THEN mp, OF conjI, OF pay q]
  note dl = plugin_apply_decides[THEN conjunct2, THEN mp, OF conjI, OF q]
  have b: "base_url (fst (k0, demo)) = ''http://kong:8001''" by (simp add: k0_def)
  have i: "dict_get cors_global ''id'' = Inr (JStr ''a1'')" by (simp add: cors_global_def)
  have l: "1 < length [acl_one, acl_two]" by simp
  from ap[OF demo_filter_jwt, THEN conjunct2, THEN conjunct1, THEN mp, OF refl]
  have jwt: "map_option snd (plugin_apply (AStr ''jwt'') JNull ANone ANone AFalse (k0, demo))
     = Some (log_req (request_of POST ''http://kong:8001/plugins'' (Some [(''name'', JStr ''jwt'')]) k0)
               (after_listing (k0, demo)))"
    unfolding b by (elim exE, simp)
  from ap[OF demo_filter_cors, THEN conjunct2, THEN conjunct2, THEN conjunct1, THEN spec, THEN spec,
      THEN mp, OF conjI, OF refl i]
  have cors: "map_option snd (plugin_apply (AStr ''cors'') JNull ANone ANone AFalse (k0, demo))
     = Some (log_req (request_of PATCH ''http://kong:8001/plugins/a1'' (Some [(''name'', JStr ''cors'')]) k0)
               (after_listing (k0, demo)))"
    unfolding b by (elim exE, simp)
  from ap[OF demo_filter_acl, THEN conjunct2, THEN conjunct2, THEN conjunct2, THEN mp, OF l]
  have acl: "plugin_apply (AStr ''acl'') JNull ANone ANone AFalse (k0, demo)
     = Some (Inl (ValueError (''Multiple Plugin records for name: '' @ quoted ''acl''
               @ '', service: '' @ quoted ''None'' @ '', route: '' @ quoted ''None''
               @ '', consumer: '' @ quoted ''False'')), after_listing (k0, demo))"
    by simp
  from dl[OF demo_filter_acl l, THEN conjunct2]
  have del: "plugin_delete (AStr ''acl'') ANone ANone AFalse (k0, demo)
     = Some (Inl (ValueError (''Found multiple Plugin records for name: '' @ quoted ''acl''
               @ '', service: '' @ quoted ''None'' @ '', route: '' @ quoted ''None''
               @ '', consumer: '' @ quoted ''False'')), after_listing (k0, demo))"
    by simp
  from jwt cors acl del show ?thesis by blast
qed

text \<open>
  C10. With neither \<open>name\<close> nor \<open>plugin_id\<close>, \<open>plugin_query\<close> raises the \<open>ValueError\<close>
  "Need at least one of 'plugin_id' or 'name'" in the state it started in, so no request
  has been made. With either of them it never raises this error, nor any other
  \<open>ValueError\<close> of this library: the check is passed.
\<close>

theorem plugin_query_precondition:
  "plugin_query ANone sn rn cn ANone s = Some (Inl (ValueError need_one), s)
   \<and> (name \<noteq> ANone \<or> pid \<noteq> ANone \<longrightarrow>
        plugin_query name sn rn cn pid s \<noteq> Some (Inl (ValueError m), s'))"
proof (intro conjI impI)
  show "plugin_query ANone sn rn cn ANone s = Some (Inl (ValueError need_one), s)"
    by (simp add: plugin_query_def)
next
  assume given: "name \<noteq> ANone \<or> pid \<noteq> ANone"
  show "plugin_query name sn rn cn pid s \<noteq> Some (Inl (ValueError m), s')"
  proof
    assume "plugin_query name sn rn cn pid s = Some (Inl (ValueError m), s')"
    from plugin_query_value_error[OF this] given show False by blast
  qed
qed

theorem plugin_query_precondition_witness:
  "plugin_query ANone ANone ANone ANone ANone (k0, demo) = Some (Inl (ValueError need_one), (k0, demo))
   \<and> plugin_query (AStr ''cors'') ANone ANone ANone ANone (k0, demo)
       \<noteq> Some (Inl (ValueError need_one), (k0, demo))
   \<and> plugin_query (AStr ''cors'') ANone ANone ANone ANone (k0, demo)
       = Some (Inr [cors_global], after_listing (k0, demo))"
proof -
  have n: "\<not> arg_bool ANone" by simp
  from plugin_query_precondition[of ANone ANone ANone "(k0, demo)" "AStr ''cors''" ANone need_one "(k0, demo)"]
    demo_query[OF on_demo_start n demo_filter_cors]
  show ?thesis by simp
qed

subsection \<open>A name that does not resolve\<close>

lemma demo_get_missing_route:
  "on_demo s \<Longrightarrow> route_get ''nope'' s = (Inr JNull, log_req (get_req ''http://kong:8001/routes/nope'') s)"
  by (simp add: route_get_eval on_demo_def k0_def answer_def request_of_def get_req_def not_found_def)

lemma bind_step_none:
  assumes "getter (arg_str a) s = (Inr JNull, s')" and "arg_bool a"
  shows "bind_step getter coll msg a u s = (Inl AttributeError, s')"
  using assms by (simp add: bind_step_def resolve_id_def)

lemma apply_binding_none:
  assumes "getter (arg_str a) s = (Inr JNull, s')" and "arg_bool a"
  shows "apply_binding getter label key a d s
           = (Inl (ValueError (label @ '' '' @ quoted (arg_str a) @ '' not found'')), s')"
  using assms by (simp add: apply_binding_def)

text \<open>
  C4 on the code. The example gateway has no route \<open>nope\<close>, so \<open>route_get\<close> returns \<open>None\<close>.
  \<open>plugin_apply\<close> then raises the \<open>ValueError\<close> "Route 'nope' not found" with only the GET
  made. \<open>plugin_query\<close> reads the \<open>id\<close> of the result before it compares the result with
  \<open>None\<close>, and raises \<open>AttributeError\<close> instead of its \<open>ValueError\<close>.
\<close>

theorem plugin_query_unresolved_route:
  "route_get ''nope'' (k0, demo) = (Inr JNull, log_req (get_req ''http://kong:8001/routes/nope'') (k0, demo))
   \<and> plugin_query (AStr ''cors'') ANone (AStr ''nope'') ANone ANone (k0, demo)
       = Some (Inl AttributeError, log_req (get_req ''http://kong:8001/routes/nope'') (k0, demo))
   \<and> plugin_apply (AStr ''cors'') JNull ANone (AStr ''nope'') AFalse (k0, demo)
       = Some (Inl (ValueError (''Route '' @ quoted ''nope'' @ '' not found'')),
               log_req (get_req ''http://kong:8001/routes/nope'') (k0, demo))"
proof -
  note g = demo_get_missing_route[OF on_demo_start]
  have a: "arg_bool (AStr ''nope'')" by simp
  have q: "plugin_query (AStr ''cors'') ANone (AStr ''nope'') ANone ANone (k0, demo)
       = Some (Inl AttributeError, log_req (get_req ''http://kong:8001/routes/nope'') (k0, demo))"
    using bind_step_none[where getter = route_get and a = "AStr ''nope''", simplified, OF g]
    by (simp add: plugin_query_def query_bindings_def bind_step_def[where a = ANone])
  have p: "plugin_apply (AStr ''cors'') JNull ANone (AStr ''nope'') AFalse (k0, demo)
       = Some (Inl (ValueError (''Route '' @ quoted ''nope'' @ '' not found'')),
               log_req (get_req ''http://kong:8001/routes/nope'') (k0, demo))"
    using apply_binding_none[where getter = route_get and a = "AStr ''nope''", simplified, OF g]
    by (simp add: plugin_apply_def apply_payload_def apply_binding_def[where a = ANone])
  from g q p show ?thesis by simp
qed

subsection \<open>Delete\<close>

text \<open>
  C7. When the query finds no plugin, \<open>plugin_delete\<close> returns \<open>False\<close> in the state the query
  left, in which only GET requests have been made. When it finds one plugin (whose id
  is a string) the one further request is a DELETE on \<open>plugins/<id>\<close>, and the call returns
  \<open>True\<close> when the gateway answers 204 (any other answer is raised as an error).
  \<open>route_delete\<close> does the same on the result of \<open>route_get\<close>: \<open>False\<close> and no DELETE when
  there is no route, a DELETE on \<open>routes/<id>\<close> when there is one.
\<close>

theorem delete_absent_or_present:
  "(plugin_query name sn rn cn ANone s = Some (Inr [], s') \<longrightarrow>
      plugin_delete name sn rn cn s = Some (Inr False, s') \<and> only_reads s s')
   \<and> (plugin_query name sn rn cn ANone s = Some (Inr [m], s') \<and> dict_get m ''id'' = Inr (JStr i) \<longrightarrow>
      only_reads s s'
      \<and> plugin_delete name sn rn cn s =
          Some (case respond (snd s') (sent (snd s')
                  @ [request_of DELETE (base_url (fst s) @ ''/plugins/'' @ i) None (fst s)]) of
                  NoResponse \<Rightarrow> Inl RequestFailure
                | Response c b \<Rightarrow> if c = 204 then Inr True else Inl (UnexpectedCode c 204),
                log_req (request_of DELETE (base_url (fst s) @ ''/plugins/'' @ i) None (fst s)) s'))
   \<and> (route_get rid t = (Inr r, t') \<and> \<not> py_bool r \<longrightarrow>
      route_delete rid t = (Inr False, t') \<and> only_reads t t')
   \<and> (route_get rid t = (Inr r, t') \<and> py_bool r \<longrightarrow>
      only_reads t t'
      \<and> route_delete rid t =
          (case respond (snd t') (sent (snd t')
                  @ [request_of DELETE (base_url (fst t) @ ''/routes/'' @ rid) None (fst t)]) of
                  NoResponse \<Rightarrow> Inl RequestFailure
                | Response c b \<Rightarrow> if c = 204 then Inr True else Inl (UnexpectedCode c 204),
                log_req (request_of DELETE (base_url (fst t) @ ''/routes/'' @ rid) None (fst t)) t'))"
proof (intro conjI impI; (elim conjE)?)
  assume q: "plugin_query name sn rn cn ANone s = Some (Inr [], s')"
  then show "plugin_delete name sn rn cn s = Some (Inr False, s')"
    by (simp add: plugin_delete_def)
  from q show "only_reads s s'" by (rule plugin_query_reads)
next
  assume q: "plugin_query name sn rn cn ANone s = Some (Inr [m], s')"
    and i: "dict_get m ''id'' = Inr (JStr i)"
  from q show rd: "only_reads s s'" by (rule plugin_query_reads)
  then have k: "fst s' = fst s" by (simp add: only_reads_def)
  from q i show "plugin_delete name sn rn cn s =
          Some (case respond (snd s') (sent (snd s')
                  @ [request_of DELETE (base_url (fst s) @ ''/plugins/'' @ i) None (fst s)]) of
                  NoResponse \<Rightarrow> Inl RequestFailure
                | Response c b \<Rightarrow> if c = 204 then Inr True else Inl (UnexpectedCode c 204),
                log_req (request_of DELETE (base_url (fst s) @ ''/plugins/'' @ i) None (fst s)) s')"
    by (simp add: plugin_delete_def
        kong_delete_eval[where a = "base_url (fst s) @ ''/plugins/'' @ i"] kong_url_list2 k)
next
  assume g: "route_get rid t = (Inr r, t')" and f: "\<not> py_bool r"
  then show "route_delete rid t = (Inr False, t')"
    by (simp add: route_delete_def)
  from g show "only_reads t t'" by (rule route_get_reads)
next
  assume g: "route_get rid t = (Inr r, t')" and f: "py_bool r"
  from g show rd: "only_reads t t'" by (rule route_get_reads)
  then have k: "fst t' = fst t" by (simp add: only_reads_def)
  from g f show "route_delete rid t =
          (case respond (snd t') (sent (snd t')
                  @ [request_of DELETE (base_url (fst t) @ ''/routes/'' @ rid) None (fst t)]) of
                  NoResponse \<Rightarrow> Inl RequestFailure
                | Response c b \<Rightarrow> if c = 204 then Inr True else Inl (UnexpectedCode c 204),
                log_req (request_of DELETE (base_url (fst t) @ ''/routes/'' @ rid) None (fst t)) t')"
    by (simp add: route_delete_def
        kong_delete_eval[where a = "base_url (fst t) @ ''/routes/'' @ rid"] kong_url_list2 k)
qed

lemma demo_get_route:
  "on_demo s \<Longrightarrow> route_get ''r1'' s
     = (Inr (JObj [(''id'', JStr r1_id), (''name'', JStr ''r1'')]), log_req (get_req ''http://kong:8001/routes/r1'') s)"
  by (simp add: route_get_eval on_demo_def k0_def answer_def request_of_def get_req_def)

lemma demo_delete_answer:
  "on_demo s \<Longrightarrow> respond (snd s) (l @ [request_of DELETE a None k]) = Response 204 None"
  by (simp add: on_demo_def answer_def request_of_def)

theorem delete_absent_or_present_witness:
  "plugin_delete (AStr ''jwt'') ANone ANone AFalse (k0, demo) = Some (Inr False, after_listing (k0, demo))
   \<and> plugin_delete (AStr ''cors'') ANone ANone AFalse (k0, demo)
       = Some (Inr True, log_req (request_of DELETE ''http://kong:8001/plugins/a1'' None k0) (after_listing (k0, demo)))
   \<and> route_delete ''nope'' (k0, demo) = (Inr False, log_req (get_req ''http://kong:8001/routes/nope'') (k0, demo))
   \<and> route_delete ''r1'' (k0, demo)
       = (Inr True, log_req (request_of DELETE ''http://kong:8001/routes/r1'' None k0)
              (log_req (get_req ''http://kong:8001/routes/r1'') (k0, demo)))"
proof -
  have f: "\<not> arg_bool AFalse" by simp
  note q = demo_query[OF on_demo_start f]
  have b: "base_url k0 = ''http://kong:8001''" by (simp add: k0_def)
  have i: "dict_get cors_global ''id'' = Inr (JStr ''a1'')" by (simp add: cors_global_def)
  have o1: "on_demo (after_listing (k0, demo))"
    by (simp add: after_listing_def on_demo_log on_demo_start)
  have o2: "on_demo (log_req (get_req ''http://kong:8001/routes/r1'') (k0, demo))"
    by (simp add: on_demo_log on_demo_start)
  note T = delete_absent_or_present[where s = "(k0, demo)" and t = "(k0, demo)"]
  from T[THEN conjunct1, THEN mp, OF q[OF demo_filter_jwt]]
  have 1: "plugin_delete (AStr ''jwt'') ANone ANone AFalse (k0, demo) = Some (Inr False, after_listing (k0, demo))"
    by simp
  from T[THEN conjunct2, THEN conjunct1, THEN mp, OF conjI, OF q[OF demo_filter_cors] i]
  have 2: "plugin_delete (AStr ''cors'') ANone ANone AFalse (k0, demo)
       = Some (Inr True, log_req (request_of DELETE ''http://kong:8001/plugins/a1'' None k0) (after_listing (k0, demo)))"
    by (simp add: demo_delete_answer[OF o1] b)
  from T[THEN conjunct2, THEN conjunct2, THEN conjunct1, THEN mp, OF conjI,
      OF demo_get_missing_route[OF on_demo_start]]
  have 3: "route_delete ''nope'' (k0, demo) = (Inr False, log_req (get_req ''http://kong:8001/routes/nope'') (k0, demo))"
    by simp
  from T[THEN conjunct2, THEN conjunct2, THEN conjunct2, THEN mp, OF conjI,
      OF demo_get_route[OF on_demo_start]]
  have 4: "route_delete ''r1'' (k0, demo)
       = (Inr True, log_req (request_of DELETE ''http://kong:8001/routes/r1'' None k0)
              (log_req (get_req ''http://kong:8001/routes/r1'') (k0, demo)))"
    by (simp add: demo_delete_answer[OF o2] b)
  from 1 2 3 4 show ?thesis by blast
qed

subsection \<open>The payload of \<open>plugin_apply\<close>\<close>

lemma dict_update_keys: "fst ` set (dict_update d h) = fst ` set d \<union> fst ` set h"
  unfolding dict_update_def
  by (induction h arbitrary: d) (auto simp: AList.dom_update)

lemma dict_update_other: "k \<notin> fst ` set h \<Longrightarrow> map_of (dict_update d h) k = map_of d k"
  unfolding dict_update_def
  by (induction h arbitrary: d) (auto simp: AList.update_conv')

lemma dict_update_entry:
  "distinct (map fst h) \<Longrightarrow> (k, v) \<in> set h \<Longrightarrow> map_of (dict_update d h) k = Some v"
proof (induction h arbitrary: d)
  case Nil
  then show ?case by simp
next
  case (Cons x h)
  show ?case
  proof (cases "(k, v) = x")
    case True
    with Cons.prems have "k \<notin> fst ` set h" by force
    from dict_update_other[OF this, of "AList.update (fst x) (snd x) d"] True
    show ?thesis by (auto simp: dict_update_def AList.update_conv')
  next
    case False
    with Cons.prems have "distinct (map fst h)" and "(k, v) \<in> set h" by auto
    from Cons.IH[OF this, of "AList.update (fst x) (snd x) d"]
    show ?thesis by (simp add: dict_update_def)
  qed
qed

lemma prepare_config_keys: "fst ` set (prepare_config kvs) = (\<lambda>k. ''config.'' @ k) ` fst ` set kvs"
  by (force simp: prepare_config_def dict_update_keys image_iff)

lemma prepare_config_distinct: "distinct (map fst (prepare_config kvs))"
proof -
  have "distinct (map fst d) \<Longrightarrow> distinct (map fst (dict_update d h))" for d h :: "(string \<times> json) list"
    unfolding dict_update_def
    by (induction h arbitrary: d) (auto simp: AList.distinct_update)
  then show ?thesis by (simp add: prepare_config_def)
qed

lemma prepare_config_entry:
  assumes "distinct (map fst kvs)" and "(k, v) \<in> set kvs"
  shows "(''config.'' @ k, v) \<in> set (prepare_config kvs)"
proof -
  have "distinct (map fst (map (\<lambda>kv. (''config.'' @ fst kv, snd kv)) kvs))"
    using assms(1) by (simp add: distinct_map comp_def inj_on_def)
  moreover have "(''config.'' @ k, v) \<in> set (map (\<lambda>kv. (''config.'' @ fst kv, snd kv)) kvs)"
    using assms(2) by force
  ultimately have "map_of (prepare_config kvs) (''config.'' @ k) = Some v"
    unfolding prepare_config_def by (rule dict_update_entry)
  then show ?thesis by (rule map_of_SomeD)
qed

lemma apply_binding_result:
  assumes "apply_binding getter label key a d s = (Inr d', s')"
  shows "if arg_bool a
         then \<exists>r i. getter (arg_str a) s = (Inr r, s') \<and> r \<noteq> JNull \<and> getitem r ''id'' = Inr i
                  \<and> d' = AList.update key i d
         else d' = d \<and> s' = s"
  using assms
  by (auto simp: apply_binding_def split: if_splits sum.splits prod.splits)

lemma apply_binding_map:
  assumes "apply_binding getter label key a d s = (Inr d', s')"
  shows "(\<forall>k. k \<noteq> key \<longrightarrow> map_of d' k = map_of d k)
     \<and> fst ` set d' = fst ` set d \<union> (if arg_bool a then {key} else {})
     \<and> (arg_bool a \<longrightarrow> (\<exists>r i. getter (arg_str a) s = (Inr r, s') \<and> getitem r ''id'' = Inr i
            \<and> map_of d' key = Some i))
     \<and> (\<not> arg_bool a \<longrightarrow> s' = s)"
proof (cases "arg_bool a")
  case True
  with apply_binding_result[OF assms]
  obtain r i where "getter (arg_str a) s = (Inr r, s')" "getitem r ''id'' = Inr i"
    "d' = AList.update key i d" by auto
  with True show ?thesis by (simp add: AList.update_conv' AList.dom_update)
next
  case False
  with apply_binding_result[OF assms] show ?thesis by simp
qed

text \<open>
  C5. The payload \<open>plugin_apply\<close> builds from a config dict (each key once) and then sends
  holds the plugin name under \<open>name\<close>, every config value, unchanged, under its key
  prefixed with \<open>config.\<close>, and the \<open>id\<close> of each resolved binding under \<open>service.id\<close>,
  \<open>route.id\<close> or \<open>consumer.id\<close>. It has no other keys: no config entry stays under its
  bare key. The resolvers run in the order service, route, consumer, each in the state
  the one before left (\<open>s1\<close> after the service, \<open>s2\<close> after the route); a binding that is
  not supplied leaves the state as it was.
\<close>

theorem apply_payload_contents:
  assumes pay: "apply_payload name (JObj kvs) sn rn cn s = (Inr d, s')"
    and dict: "distinct (map fst kvs)"
  shows "map_of d ''name'' = Some (arg_json name)
     \<and> (\<forall>kv \<in> set kvs. map_of d (''config.'' @ fst kv) = Some (snd kv))
     \<and> fst ` set d = {''name''} \<union> (\<lambda>k. ''config.'' @ k) ` fst ` set kvs
          \<union> (if arg_bool sn then {''service.id''} else {})
          \<union> (if arg_bool rn then {''route.id''} else {})
          \<union> (if arg_bool cn then {''consumer.id''} else {})
     \<and> (\<exists>s1 s2.
          (arg_bool sn \<longrightarrow> (\<exists>r i. service_get (arg_str sn) s = (Inr r, s1) \<and> getitem r ''id'' = Inr i
              \<and> map_of d ''service.id'' = Some i))
        \<and> (\<not> arg_bool sn \<longrightarrow> s1 = s)
        \<and> (arg_bool rn \<longrightarrow> (\<exists>r i. route_get (arg_str rn) s1 = (Inr r, s2) \<and> getitem r ''id'' = Inr i
              \<and> map_of d ''route.id'' = Some i))
        \<and> (\<not> arg_bool rn \<longrightarrow> s2 = s1)
        \<and> (arg_bool cn \<longrightarrow> (\<exists>r i. consumer_get (arg_str cn) s2 = (Inr r, s') \<and> getitem r ''id'' = Inr i
              \<and> map_of d ''consumer.id'' = Some i))
        \<and> (\<not> arg_bool cn \<longrightarrow> s' = s2))"
proof -
  define d0 where "d0 = dict_update [(''name'', arg_json name)] (prepare_config kvs)"
  have nk: "''name'' \<notin> fst ` set (prepare_config kvs)"
    by (auto simp: prepare_config_keys)
  have n0: "map_of d0 ''name'' = Some (arg_json name)"
    unfolding d0_def using dict_update_other[OF nk] by simp
  have c0: "map_of d0 (''config.'' @ fst kv) = Some (snd kv)" if "kv \<in> set kvs" for kv
    unfolding d0_def
    using dict_update_entry[OF prepare_config_distinct prepare_config_entry[OF dict, of "fst kv" "snd kv"]] that
    by simp
  have k0: "fst ` set d0 = {''name''} \<union> (\<lambda>k. ''config.'' @ k) ` fst ` set kvs"
    unfolding d0_def by (simp add: dict_update_keys prepare_config_keys)
  from pay obtain d1 s1 where e1: "apply_binding service_get ''Service'' ''service.id'' sn d0 s = (Inr d1, s1)"
    by (auto simp: apply_payload_def d0_def split: sum.splits prod.splits)
  with pay obtain d2 s2 where e2: "apply_binding route_get ''Route'' ''route.id'' rn d1 s1 = (Inr d2, s2)"
    by (auto simp: apply_payload_def d0_def split: sum.splits prod.splits)
  with pay e1 have e3: "apply_binding consumer_get ''Consumer'' ''consumer.id'' cn d2 s2 = (Inr d, s')"
    by (auto simp: apply_payload_def d0_def split: sum.splits prod.splits)
  note m1 = apply_binding_map[OF e1] and m2 = apply_binding_map[OF e2] and m3 = apply_binding_map[OF e3]
  have same: "map_of d k = map_of d0 k"
    if "k \<noteq> ''service.id''" "k \<noteq> ''route.id''" "k \<noteq> ''consumer.id''" for k
    using m1 m2 m3 that by simp
  have name: "map_of d ''name'' = Some (arg_json name)"
    using same[of "''name''"] n0 by simp
  have conf: "\<forall>kv \<in> set kvs. map_of d (''config.'' @ fst kv) = Some (snd kv)"
    using same c0 by simp
  have keys: "fst ` set d = {''name''} \<union> (\<lambda>k. ''config.'' @ k) ` fst ` set kvs
          \<union> (if arg_bool sn then {''service.id''} else {})
          \<union> (if arg_bool rn then {''route.id''} else {})
          \<union> (if arg_bool cn then {''consumer.id''} else {})"
    using m1 m2 m3 k0 by simp
  have sv: "arg_bool sn \<longrightarrow> (\<exists>r i. service_get (arg_str sn) s = (Inr r, s1) \<and> getitem r ''id'' = Inr i
              \<and> map_of d ''service.id'' = Some i)"
    using m1 m2 m3 by auto
  have rt: "arg_bool rn \<longrightarrow> (\<exists>r i. route_get (arg_str rn) s1 = (Inr r, s2) \<and> getitem r ''id'' = Inr i
              \<and> map_of d ''route.id'' = Some i)"
    using m2 m3 by auto
  have cs: "arg_bool cn \<longrightarrow> (\<exists>r i. consumer_get (arg_str cn) s2 = (Inr r, s') \<and> getitem r ''id'' = Inr i
              \<and> map_of d ''consumer.id'' = Some i)"
    using m3 by auto
  have pins: "\<not> arg_bool sn \<longrightarrow> s1 = s" "\<not> arg_bool rn \<longrightarrow> s2 = s1" "\<not> arg_bool cn \<longrightarrow> s' = s2"
    using m1 m2 m3 by simp_all
  from name conf keys sv rt cs pins show ?thesis by blast
qed

lemma service_get_eval:
  "service_get n s =
     (case respond (snd s) (sent (snd s) @ [request_of GET (base_url (fst s) @ ''/services/'' @ n) None (fst s)]) of
        NoResponse \<Rightarrow> Inl RequestFailure
      | Response c b \<Rightarrow>
          if 400 \<le> c \<and> c < 600 then Inr JNull
          else (case b of None \<Rightarrow> Inl JSONDecodeError | Some j \<Rightarrow> Inr j),
      log_req (request_of GET (base_url (fst s) @ ''/services/'' @ n) None (fst s)) s)"
  by (cases "respond (snd s) (sent (snd s) @ [request_of GET (base_url (fst s) @ ''/services/'' @ n) None (fst s)])")
     (auto simp: service_get_def kong_get_def kong_url_list2 send_eq body_json_def is_http_error_def
      split: option.splits)

lemma demo_get_service:
  "on_demo s \<Longrightarrow> service_get ''svc1'' s
     = (Inr (JObj [(''id'', JStr svc1_id), (''name'', JStr ''svc1'')]),
        log_req (get_req ''http://kong:8001/services/svc1'') s)"
  by (simp add: service_get_eval on_demo_def k0_def answer_def request_of_def get_req_def)

lemma demo_payload_eval:
  "apply_payload (AStr ''cors'') (JObj demo_config) (AStr ''svc1'') ANone AFalse (k0, demo)
     = (Inr demo_payload, log_req (get_req ''http://kong:8001/services/svc1'') (k0, demo))"
  by (simp add: apply_payload_def apply_binding_def demo_get_service[OF on_demo_start]
      demo_config_def demo_payload_def prepare_config_def dict_update_def)

lemma consumer_get_eval:
  "consumer_get n s =
     (case respond (snd s) (sent (snd s) @ [request_of GET (base_url (fst s) @ ''/consumers/'' @ n) None (fst s)]) of
        NoResponse \<Rightarrow> Inl RequestFailure
      | Response c b \<Rightarrow>
          if 400 \<le> c \<and> c < 600 then Inr JNull
          else (case b of None \<Rightarrow> Inl JSONDecodeError | Some j \<Rightarrow> Inr j),
      log_req (request_of GET (base_url (fst s) @ ''/consumers/'' @ n) None (fst s)) s)"
  by (cases "respond (snd s) (sent (snd s) @ [request_of GET (base_url (fst s) @ ''/consumers/'' @ n) None (fst s)])")
     (auto simp: consumer_get_def kong_get_def kong_url_list2 send_eq body_json_def is_http_error_def
      split: option.splits)

lemma demo_get_consumer:
  "on_demo s \<Longrightarrow> consumer_get ''bob'' s
     = (Inr (JObj [(''id'', JStr bob_id), (''username'', JStr ''bob'')]),
        log_req (get_req ''http://kong:8001/consumers/bob'') s)"
  by (simp add: consumer_get_eval on_demo_def k0_def answer_def request_of_def get_req_def)

lemma demo_payload_rc_eval:
  "apply_payload (AStr ''cors'') (JObj demo_config) ANone (AStr ''r1'') (AStr ''bob'') (k0, demo)
     = (Inr demo_payload_rc, after_r1_bob (k0, demo))"
  by (simp add: apply_payload_def apply_binding_def demo_get_route[OF on_demo_start]
      demo_get_consumer[OF on_demo_log[OF on_demo_start]] after_r1_bob_def
      demo_config_def demo_payload_rc_def prepare_config_def dict_update_def)

theorem apply_payload_contents_witness:
  "apply_payload (AStr ''cors'') (JObj demo_config) (AStr ''svc1'') ANone AFalse (k0, demo)
     = (Inr demo_payload, log_req (get_req ''http://kong:8001/services/svc1'') (k0, demo))
   \<and> map_of demo_payload ''name'' = Some (JStr ''cors'')
   \<and> map_of demo_payload ''config.a'' = Some (JNum 1)
   \<and> map_of demo_payload ''config.b'' = Some (JObj [(''c'', JNum 2)])
   \<and> map_of demo_payload ''service.id'' = Some (JStr svc1_id)
   \<and> fst ` set demo_payload = {''name'', ''config.a'', ''config.b'', ''service.id''}
   \<and> apply_payload (AStr ''cors'') (JObj demo_config) ANone (AStr ''r1'') (AStr ''bob'') (k0, demo)
     = (Inr demo_payload_rc, after_r1_bob (k0, demo))
   \<and> map_of demo_payload_rc ''route.id'' = Some (JStr r1_id)
   \<and> map_of demo_payload_rc ''consumer.id'' = Some (JStr bob_id)
   \<and> fst ` set demo_payload_rc = {''name'', ''config.a'', ''config.b'', ''route.id'', ''consumer.id''}"
proof -
  have dist: "distinct (map fst demo_config)" by (simp add: demo_config_def)
  note T = apply_payload_contents[OF demo_payload_eval dist]
  from T have 1: "map_of demo_payload ''name'' = Some (JStr ''cors'')" by simp
  from T have "\<forall>kv \<in> set demo_config. map_of demo_payload (''config.'' @ fst kv) = Some (snd kv)"
    by blast
  then have 2: "map_of demo_payload ''config.a'' = Some (JNum 1)"
    and 3: "map_of demo_payload ''config.b'' = Some (JObj [(''c'', JNum 2)])"
    by (simp_all add: demo_config_def)
  from T have "\<exists>s1 r i. service_get ''svc1'' (k0, demo) = (Inr r, s1) \<and> getitem r ''id'' = Inr i
      \<and> map_of demo_payload ''service.id'' = Some i"
    by auto
  then have 4: "map_of demo_payload ''service.id'' = Some (JStr svc1_id)"
    by (auto simp: demo_get_service[OF on_demo_start])
  from T have "fst ` set demo_payload = {''name''} \<union> (\<lambda>k. ''config.'' @ k) ` fst ` set demo_config
      \<union> {''service.id''}"
    by simp
  then have 5: "fst ` set demo_payload = {''name'', ''config.a'', ''config.b'', ''service.id''}"
    by (auto simp: demo_config_def)
  note U = apply_payload_contents[OF demo_payload_rc_eval dist]
  from U obtain s2 r i r' i'
    where rt: "route_get ''r1'' (k0, demo) = (Inr r, s2)" "getitem r ''id'' = Inr i"
      "map_of demo_payload_rc ''route.id'' = Some i"
      and cs: "consumer_get ''bob'' s2 = (Inr r', after_r1_bob (k0, demo))" "getitem r' ''id'' = Inr i'"
      "map_of demo_payload_rc ''consumer.id'' = Some i'"
    by auto
  from rt have 6: "map_of demo_payload_rc ''route.id'' = Some (JStr r1_id)"
    and s2: "s2 = log_req (get_req ''http://kong:8001/routes/r1'') (k0, demo)"
    by (auto simp: demo_get_route[OF on_demo_start])
  from cs have 7: "map_of demo_payload_rc ''consumer.id'' = Some (JStr bob_id)"
    unfolding s2 by (auto simp: demo_get_consumer[OF on_demo_log[OF on_demo_start]])
  from U have "fst ` set demo_payload_rc = {''name''} \<union> (\<lambda>k. ''config.'' @ k) ` fst ` set demo_config
      \<union> {''route.id''} \<union> {''consumer.id''}"
    by simp
  then have 8: "fst ` set demo_payload_rc = {''name'', ''config.a'', ''config.b'', ''route.id'', ''consumer.id''}"
    by (auto simp: demo_config_def)
  from demo_payload_eval demo_payload_rc_eval 1 2 3 4 5 6 7 8 show ?thesis by blast
qed

subsection \<open>Which plugins a query returns\<close>

lemma uuid_hex_empty: "uuid_hex [] = []"
  by (simp add: uuid_hex_def py_strip_def)

lemma py_uuid_ok: "py_uuid w v = Inr u \<Longrightarrow> v = JStr u \<and> u \<noteq> []"
  by (cases v) (auto simp: uuid_hex_empty split: if_splits option.splits)

lemma bind_step_result:
  assumes "bind_step getter coll msg a u s = (Inr (u', i), s')"
  shows "if arg_bool a
         then \<exists>res v. getter (arg_str a) s = (Inr res, s') \<and> dict_get res ''id'' = Inr (JStr v)
                \<and> i = Some v \<and> v \<noteq> []
         else i = None \<and> s' = s \<and> u' = u"
proof (cases "arg_bool a")
  case True
  with assms obtain res j where g: "getter (arg_str a) s = (Inr res, s')"
    and d: "dict_get res ''id'' = Inr j"
    and v: "py_uuid (snd s') j = Inr (the i)" and "i \<noteq> None"
    by (auto simp: bind_step_def resolve_id_def split: sum.splits prod.splits if_splits)
  with py_uuid_ok[OF v] True show ?thesis by auto
next
  case False
  with assms show ?thesis by (simp add: bind_step_def)
qed

lemma bind_step_id_bool:
  assumes "bind_step getter coll msg a u s = (Inr (u', i), s')"
  shows "id_bool i = arg_bool a"
  using bind_step_result[OF assms] by (auto split: if_splits)

lemma query_bindings_result:
  assumes "query_bindings sn rn cn pid s = (Inr (u, sid, rid, cid), s3)"
  shows "\<exists>u0 u1 u2 s1 s2.
      bind_step service_get ''services'' service_gone sn u0 s = (Inr (u1, sid), s1)
    \<and> bind_step route_get ''routes'' route_gone rn u1 s1 = (Inr (u2, rid), s2)
    \<and> bind_step consumer_get ''consumers'' consumer_gone cn u2 s2 = (Inr (u, cid), s3)"
proof -
  let ?u = "if arg_bool pid then [JStr ''plugins'', arg_json pid] else [JStr ''plugins'']"
  obtain r1 s1 where e1: "bind_step service_get ''services'' service_gone sn ?u s = (r1, s1)"
    using prod.exhaust by blast
  with assms obtain u1 sid' where r1: "r1 = Inr (u1, sid')"
    by (cases r1) (auto simp: query_bindings_def)
  obtain r2 s2 where e2: "bind_step route_get ''routes'' route_gone rn u1 s1 = (r2, s2)"
    using prod.exhaust by blast
  with assms e1 r1 obtain u2 rid' where r2: "r2 = Inr (u2, rid')"
    by (cases r2) (auto simp: query_bindings_def)
  obtain r3 s3' where e3: "bind_step consumer_get ''consumers'' consumer_gone cn u2 s2 = (r3, s3')"
    using prod.exhaust by blast
  with assms e1 r1 e2 r2 obtain u3 cid' where r3: "r3 = Inr (u3, cid')"
    by (cases r3) (auto simp: query_bindings_def)
  from assms e1 r1 e2 r2 e3 r3
  have "u3 = u" "sid' = sid" "rid' = rid" "cid' = cid" "s3' = s3"
    by (simp_all add: query_bindings_def)
  with e1 r1 e2 r2 e3 r3 show ?thesis by blast
qed

lemma filter_plugins_member:
  "filter_plugins n c sv r items = Inr ps \<Longrightarrow> p \<in> set ps \<Longrightarrow>
     p \<in> set items \<and> plugin_matches n c sv r p = Inr True"
proof (induction items arbitrary: ps)
  case Nil
  then show ?case by simp
next
  case (Cons x items)
  from Cons.prems(1) obtain keep rest where k: "plugin_matches n c sv r x = Inr keep"
    and f: "filter_plugins n c sv r items = Inr rest"
    and ps: "ps = (if keep then x # rest else rest)"
    by (auto split: sum.splits)
  show ?case
  proof (cases "keep \<and> p = x")
    case True
    with k show ?thesis by simp
  next
    case False
    with ps Cons.prems(2) have "p \<in> set rest" by (auto split: if_splits)
    from Cons.IH[OF f this] show ?thesis by simp
  qed
qed

lemma binding_ok_true:
  assumes "binding_ok b i = Inr True"
  shows "py_bool b = id_bool i \<and> (py_bool b \<longrightarrow> (\<exists>u. i = Some u \<and> dict_get b ''id'' = Inr (JStr u)))"
  using assms
  by (cases i) (auto simp: binding_ok_def split: if_splits sum.splits)

lemma plugin_matches_true:
  assumes "plugin_matches n c sv r p = Inr True"
  shows "\<exists>pc ps pr pn. dict_get p ''consumer'' = Inr pc \<and> dict_get p ''service'' = Inr ps
      \<and> dict_get p ''route'' = Inr pr \<and> dict_get p ''name'' = Inr pn \<and> \<not> arg_ne pn n
      \<and> binding_ok pc c = Inr True \<and> binding_ok ps sv = Inr True \<and> binding_ok pr r = Inr True"
  using assms
  by (auto simp: plugin_matches_def split: sum.splits if_splits bool.splits)

lemma plugin_query_result:
  assumes "plugin_query n sn rn cn pid s = Some (Inr ps, s')"
  shows "\<exists>u sid rid cid s1 items. query_bindings sn rn cn pid s = (Inr (u, sid, rid, cid), s1)
      \<and> filter_plugins n cid sid rid items = Inr ps"
  using assms unfolding plugin_query_def
  by (auto split: if_splits prod.splits sum.splits option.splits)

text \<open>
  C2. Every plugin a query returns is a dict whose \<open>consumer\<close> binding is present (a
  value that Python counts as true) exactly when a consumer name was supplied, and
  likewise, independently, for \<open>service\<close> and \<open>route\<close>. Where a name was supplied, the
  \<open>id\<close> under the plugin's binding is the \<open>id\<close> the resolver returned for that name.
  The resolvers run in the order service, route, consumer, each in the state the one
  before left (\<open>s1\<close>, \<open>s2\<close>, \<open>s3\<close>); a binding that is not supplied leaves the state
  as it was, and after \<open>s3\<close> the query only reads.
\<close>

theorem plugin_query_binding_presence:
  assumes qry: "plugin_query name sn rn cn pid s = Some (Inr ps, s')"
    and mem: "p \<in> set ps"
  shows "\<exists>pc psv pr s1 s2 s3.
      dict_get p ''consumer'' = Inr pc \<and> dict_get p ''service'' = Inr psv
    \<and> dict_get p ''route'' = Inr pr
    \<and> py_bool pc = arg_bool cn \<and> py_bool psv = arg_bool sn \<and> py_bool pr = arg_bool rn
    \<and> (arg_bool sn \<longrightarrow> (\<exists>res i. service_get (arg_str sn) s = (Inr res, s1)
          \<and> dict_get res ''id'' = Inr (JStr i) \<and> dict_get psv ''id'' = Inr (JStr i)))
    \<and> (\<not> arg_bool sn \<longrightarrow> s1 = s)
    \<and> (arg_bool rn \<longrightarrow> (\<exists>res i. route_get (arg_str rn) s1 = (Inr res, s2)
          \<and> dict_get res ''id'' = Inr (JStr i) \<and> dict_get pr ''id'' = Inr (JStr i)))
    \<and> (\<not> arg_bool rn \<longrightarrow> s2 = s1)
    \<and> (arg_bool cn \<longrightarrow> (\<exists>res i. consumer_get (arg_str cn) s2 = (Inr res, s3)
          \<and> dict_get res ''id'' = Inr (JStr i) \<and> dict_get pc ''id'' = Inr (JStr i)))
    \<and> (\<not> arg_bool cn \<longrightarrow> s3 = s2)
    \<and> only_reads s3 s'"
proof -
  from plugin_query_result[OF qry] obtain u sid rid cid s3 items
    where qb: "query_bindings sn rn cn pid s = (Inr (u, sid, rid, cid), s3)"
      and fl: "filter_plugins name cid sid rid items = Inr ps"
    by blast
  from query_bindings_result[OF qb] obtain u0 u1 u2 s1 s2
    where b1: "bind_step service_get ''services'' service_gone sn u0 s = (Inr (u1, sid), s1)"
      and b2: "bind_step route_get ''routes'' route_gone rn u1 s1 = (Inr (u2, rid), s2)"
      and b3: "bind_step consumer_get ''consumers'' consumer_gone cn u2 s2 = (Inr (u, cid), s3)"
    by blast
  from filter_plugins_member[OF fl mem] have "plugin_matches name cid sid rid p = Inr True" by simp
  from plugin_matches_true[OF this] obtain pc psv pr
    where g: "dict_get p ''consumer'' = Inr pc" "dict_get p ''service'' = Inr psv"
      "dict_get p ''route'' = Inr pr"
      and ok: "binding_ok pc cid = Inr True" "binding_ok psv sid = Inr True"
        "binding_ok pr rid = Inr True"
    by blast
  note kc = binding_ok_true[OF ok(1)] and ks = binding_ok_true[OF ok(2)]
    and kr = binding_ok_true[OF ok(3)]
  have pres: "py_bool pc = arg_bool cn" "py_bool psv = arg_bool sn" "py_bool pr = arg_bool rn"
    using kc ks kr bind_step_id_bool[OF b1] bind_step_id_bool[OF b2] bind_step_id_bool[OF b3]
    by simp_all
  have sv: "arg_bool sn \<longrightarrow> (\<exists>res i. service_get (arg_str sn) s = (Inr res, s1)
          \<and> dict_get res ''id'' = Inr (JStr i) \<and> dict_get psv ''id'' = Inr (JStr i))"
    using bind_step_result[OF b1] ks pres by auto
  have rt: "arg_bool rn \<longrightarrow> (\<exists>res i. route_get (arg_str rn) s1 = (Inr res, s2)
          \<and> dict_get res ''id'' = Inr (JStr i) \<and> dict_get pr ''id'' = Inr (JStr i))"
    using bind_step_result[OF b2] kr pres by auto
  have cs: "arg_bool cn \<longrightarrow> (\<exists>res i. consumer_get (arg_str cn) s2 = (Inr res, s3)
          \<and> dict_get res ''id'' = Inr (JStr i) \<and> dict_get pc ''id'' = Inr (JStr i))"
    using bind_step_result[OF b3] kc pres by auto
  have pins: "\<not> arg_bool sn \<longrightarrow> s1 = s" "\<not> arg_bool rn \<longrightarrow> s2 = s1" "\<not> arg_bool cn \<longrightarrow> s3 = s2"
    using bind_step_result[OF b1] bind_step_result[OF b2] bind_step_result[OF b3]
    by (simp_all split: if_splits)
  have rest: "only_reads s3 s'"
  proof -
    from qry qb have "pid \<noteq> ANone \<or> name \<noteq> ANone"
      by (auto simp: plugin_query_def)
    with qry qb obtain r2 s4 where e2: "kong_get (UList u) s3 = (r2, s4)"
      and "\<exists>res. r2 = Inr res \<and> (\<exists>y. walk res res s4 = Some y \<and> snd y = s')"
      by (cases "kong_get (UList u) s3")
         (auto simp: plugin_query_def split: sum.splits option.splits prod.splits)
    then obtain res y where w: "walk res res s4 = Some y" "snd y = s'" by blast
    from only_reads_trans[OF kong_get_reads[OF e2] walk_reads_aux[OF w(1)]] w(2)
    show ?thesis by simp
  qed
  from g pres sv rt cs pins rest show ?thesis by blast
qed

lemma svc1_uuid:
  assumes "int16 w = py_int16"
  shows "py_uuid w (JStr svc1_id) = Inr svc1_id"
proof -
  have h: "uuid_hex svc1_id = ''11111111111111111111111111111111''"
    by (simp add: uuid_hex_def svc1_id_def py_strip_def)
  have v: "py_int16 ''11111111111111111111111111111111'' = Some 22685491128062564230891640495451214097"
    by (simp add: py_int16_def int_space_def drop_sign_def drop_0x_def digits_ok_def digits_val_def
        hex_digit_def)
  show ?thesis by (simp add: h v assms)
qed

lemma demo_bind_service:
  assumes "on_demo s"
  shows "bind_step service_get ''services'' service_gone (AStr ''svc1'') u s
     = (Inr ([JStr ''services'', JStr ''svc1'', JStr ''plugins''], Some svc1_id),
        log_req (get_req ''http://kong:8001/services/svc1'') s)"
proof -
  have i: "int16 (snd (log_req (get_req ''http://kong:8001/services/svc1'') s)) = py_int16"
    using assms by (simp add: on_demo_def log_req_def)
  show ?thesis
    by (simp add: bind_step_def resolve_id_def demo_get_service[OF assms] svc1_uuid[OF i]
        del: py_uuid.simps)
qed

lemma demo_get_svc1_plugins:
  "on_demo s \<Longrightarrow> kong_get (UList [JStr ''services'', JStr ''svc1'', JStr ''plugins'']) s
     = (Inr (JObj [(''data'', JArr [cors_svc1]), (''next'', JNull)]),
        log_req (get_req ''http://kong:8001/services/svc1/plugins'') s)"
  by (simp add: kong_get_eval[where a = "''http://kong:8001/services/svc1/plugins''"] kong_url_def
      on_demo_def k0_def answer_def request_of_def get_req_def is_http_error_def)

lemma demo_query_svc1:
  "plugin_query (AStr ''cors'') (AStr ''svc1'') ANone ANone ANone (k0, demo)
     = Some (Inr [cors_svc1], after_svc1_listing (k0, demo))"
proof -
  note o0 = on_demo_start
  note o1 = on_demo_log[OF o0, of "get_req ''http://kong:8001/services/svc1''"]
  have qb: "query_bindings (AStr ''svc1'') ANone ANone ANone (k0, demo)
      = (Inr ([JStr ''services'', JStr ''svc1'', JStr ''plugins''], Some svc1_id, None, None),
         log_req (get_req ''http://kong:8001/services/svc1'') (k0, demo))"
    by (simp add: query_bindings_def demo_bind_service[OF o0] bind_step_def[where a = ANone])
  have w: "walk (JObj [(''data'', JArr [cors_svc1]), (''next'', JNull)])
      (JObj [(''data'', JArr [cors_svc1]), (''next'', JNull)]) (after_svc1_listing (k0, demo))
      = Some (Inr (JObj [(''data'', JArr [cors_svc1]), (''next'', JNull)]), after_svc1_listing (k0, demo))"
    by (rule walk_stop[where nx = JNull]) simp_all
  have f: "filter_plugins (AStr ''cors'') None (Some svc1_id) None [cors_svc1] = Inr [cors_svc1]"
    by (simp add: plugin_matches_def binding_ok_def cors_svc1_def svc1_id_def)
  show ?thesis
    by (simp add: plugin_query_def qb demo_get_svc1_plugins[OF o1] w[unfolded after_svc1_listing_def] f
        after_svc1_listing_def del: filter_plugins.simps)
qed

lemma demo_uuids:
  assumes "int16 w = py_int16"
  shows "py_uuid w (JStr r1_id) = Inr r1_id" and "py_uuid w (JStr bob_id) = Inr bob_id"
proof -
  have h: "uuid_hex r1_id = ''22222222222222222222222222222222''"
    "uuid_hex bob_id = ''33333333333333333333333333333333''"
    by (simp_all add: uuid_hex_def r1_id_def bob_id_def py_strip_def)
  have v: "py_int16 ''22222222222222222222222222222222'' = Some 45370982256125128461783280990902428194"
    "py_int16 ''33333333333333333333333333333333'' = Some 68056473384187692692674921486353642291"
    by (simp_all add: py_int16_def int_space_def drop_sign_def drop_0x_def digits_ok_def digits_val_def
        hex_digit_def)
  show "py_uuid w (JStr r1_id) = Inr r1_id" and "py_uuid w (JStr bob_id) = Inr bob_id"
    by (simp_all add: h v assms)
qed

lemma demo_bind_route:
  assumes "on_demo s"
  shows "bind_step route_get ''routes'' route_gone (AStr ''r1'') u s
     = (Inr ([JStr ''routes'', JStr ''r1'', JStr ''plugins''], Some r1_id),
        log_req (get_req ''http://kong:8001/routes/r1'') s)"
proof -
  have i: "int16 (snd (log_req (get_req ''http://kong:8001/routes/r1'') s)) = py_int16"
    using assms by (simp add: on_demo_def log_req_def)
  show ?thesis
    by (simp add: bind_step_def resolve_id_def demo_get_route[OF assms] demo_uuids(1)[OF i]
        del: py_uuid.simps)
qed

lemma demo_bind_consumer:
  assumes "on_demo s"
  shows "bind_step consumer_get ''consumers'' consumer_gone (AStr ''bob'') u s
     = (Inr ([JStr ''consumers'', JStr ''bob'', JStr ''plugins''], Some bob_id),
        log_req (get_req ''http://kong:8001/consumers/bob'') s)"
proof -
  have i: "int16 (snd (log_req (get_req ''http://kong:8001/consumers/bob'') s)) = py_int16"
    using assms by (simp add: on_demo_def log_req_def)
  show ?thesis
    by (simp add: bind_step_def resolve_id_def demo_get_consumer[OF assms] demo_uuids(2)[OF i]
        del: py_uuid.simps)
qed

lemma demo_get_bob_plugins:
  "on_demo s \<Longrightarrow> kong_get (UList [JStr ''consumers'', JStr ''bob'', JStr ''plugins'']) s
     = (Inr (JObj [(''data'', JArr [cors_r1_bob]), (''next'', JNull)]),
        log_req (get_req ''http://kong:8001/consumers/bob/plugins'') s)"
  by (simp add: kong_get_eval[where a = "''http://kong:8001/consumers/bob/plugins''"] kong_url_def
      on_demo_def k0_def answer_def request_of_def get_req_def is_http_error_def)

lemma demo_query_r1_bob:
  "plugin_query (AStr ''cors'') ANone (AStr ''r1'') (AStr ''bob'') ANone (k0, demo)
     = Some (Inr [cors_r1_bob], after_bob_listing (k0, demo))"
proof -
  note o0 = on_demo_start
  note o1 = on_demo_log[OF o0, of "get_req ''http://kong:8001/routes/r1''"]
  note o2 = on_demo_log[OF o1, of "get_req ''http://kong:8001/consumers/bob''"]
  have qb: "query_bindings ANone (AStr ''r1'') (AStr ''bob'') ANone (k0, demo)
      = (Inr ([JStr ''consumers'', JStr ''bob'', JStr ''plugins''], None, Some r1_id, Some bob_id),
         after_r1_bob (k0, demo))"
    by (simp add: query_bindings_def demo_bind_route[OF o0] demo_bind_consumer[OF o1]
        bind_step_def[where a = ANone] after_r1_bob_def)
  have w: "walk (JObj [(''data'', JArr [cors_r1_bob]), (''next'', JNull)])
      (JObj [(''data'', JArr [cors_r1_bob]), (''next'', JNull)]) (after_bob_listing (k0, demo))
      = Some (Inr (JObj [(''data'', JArr [cors_r1_bob]), (''next'', JNull)]), after_bob_listing (k0, demo))"
    by (rule walk_stop[where nx = JNull]) simp_all
  have f: "filter_plugins (AStr ''cors'') (Some bob_id) None (Some r1_id) [cors_r1_bob] = Inr [cors_r1_bob]"
    by (simp add: plugin_matches_def binding_ok_def cors_r1_bob_def r1_id_def bob_id_def)
  show ?thesis
    by (simp add: plugin_query_def qb demo_get_bob_plugins[OF o2, folded after_r1_bob_def]
        w[unfolded after_bob_listing_def] f after_bob_listing_def del: filter_plugins.simps)
qed

theorem plugin_query_binding_presence_witness:
  "plugin_query (AStr ''cors'') ANone (AStr ''r1'') (AStr ''bob'') ANone (k0, demo)
     = Some (Inr [cors_r1_bob], after_bob_listing (k0, demo))
   \<and> dict_get cors_r1_bob ''service'' = Inr JNull
   \<and> dict_get cors_r1_bob ''route'' = Inr (JObj [(''id'', JStr r1_id)])
   \<and> dict_get cors_r1_bob ''consumer'' = Inr (JObj [(''id'', JStr bob_id)])
   \<and> route_get ''r1'' (k0, demo)
       = (Inr (JObj [(''id'', JStr r1_id), (''name'', JStr ''r1'')]),
          log_req (get_req ''http://kong:8001/routes/r1'') (k0, demo))
   \<and> consumer_get ''bob'' (log_req (get_req ''http://kong:8001/routes/r1'') (k0, demo))
       = (Inr (JObj [(''id'', JStr bob_id), (''username'', JStr ''bob'')]), after_r1_bob (k0, demo))
   \<and> plugin_query (AStr ''cors'') (AStr ''svc1'') ANone ANone ANone (k0, demo)
     = Some (Inr [cors_svc1], after_svc1_listing (k0, demo))
   \<and> dict_get cors_svc1 ''service'' = Inr (JObj [(''id'', JStr svc1_id)])
   \<and> dict_get cors_svc1 ''route'' = Inr JNull
   \<and> dict_get cors_svc1 ''consumer'' = Inr JNull"
proof -
  note g1 = demo_get_route[OF on_demo_start]
  note g2 = demo_get_consumer[OF on_demo_log[OF on_demo_start], of "get_req ''http://kong:8001/routes/r1''"]
  have m: "cors_r1_bob \<in> set [cors_r1_bob]" by simp
  from plugin_query_binding_presence[OF demo_query_r1_bob m]
  obtain pc psv pr s2 s3 res i res' i'
    where f: "dict_get cors_r1_bob ''consumer'' = Inr pc" "dict_get cors_r1_bob ''service'' = Inr psv"
      "dict_get cors_r1_bob ''route'' = Inr pr" "\<not> py_bool psv"
      and rt: "route_get ''r1'' (k0, demo) = (Inr res, s2)" "dict_get res ''id'' = Inr (JStr i)"
        "dict_get pr ''id'' = Inr (JStr i)"
      and cs: "consumer_get ''bob'' s2 = (Inr res', s3)" "dict_get res' ''id'' = Inr (JStr i')"
        "dict_get pc ''id'' = Inr (JStr i')"
    by auto
  from rt g1 have i: "i = r1_id" and s2: "s2 = log_req (get_req ''http://kong:8001/routes/r1'') (k0, demo)"
    by auto
  from cs g2 have i': "i' = bob_id" unfolding s2 by auto
  have a: "dict_get cors_r1_bob ''service'' = Inr JNull
     \<and> dict_get cors_r1_bob ''route'' = Inr (JObj [(''id'', JStr r1_id)])
     \<and> dict_get cors_r1_bob ''consumer'' = Inr (JObj [(''id'', JStr bob_id)])"
    using f rt(3) cs(3) i i' by (auto simp: cors_r1_bob_def)
  have m': "cors_svc1 \<in> set [cors_svc1]" by simp
  from plugin_query_binding_presence[OF demo_query_svc1 m']
  obtain pc psv pr where "dict_get cors_svc1 ''consumer'' = Inr pc"
    "dict_get cors_svc1 ''service'' = Inr psv" "dict_get cors_svc1 ''route'' = Inr pr"
    "py_bool psv" "\<not> py_bool pr" "\<not> py_bool pc"
    by auto
  then have b: "dict_get cors_svc1 ''service'' = Inr (JObj [(''id'', JStr svc1_id)])
     \<and> dict_get cors_svc1 ''route'' = Inr JNull \<and> dict_get cors_svc1 ''consumer'' = Inr JNull"
    by (auto simp: cors_svc1_def)
  from a b demo_query_r1_bob demo_query_svc1 g1 g2 show ?thesis
    by (simp add: after_r1_bob_def)
qed

subsection \<open>Pagination\<close>

lemma kong_url_str: "kong_url k (UStr u) = Inr (base_url k @ ''/'' @ u)"
  by (simp add: kong_url_def)

lemma setitem_same:
  assumes "getitem plugins ''data'' = Inr v"
  shows "setitem plugins ''data'' v = plugins"
  using assms by (cases plugins) (auto simp: AList.update_triv split: option.splits)

lemma setitem_get:
  assumes "getitem plugins ''data'' = Inr v"
  shows "getitem (setitem plugins ''data'' v') ''data'' = Inr v'"
  using assms by (cases plugins) (auto simp: AList.update_conv' split: option.splits)

lemma setitem_twice: "setitem (setitem plugins k v) k v' = setitem plugins k v'"
  by (cases plugins) auto

lemma walk_collects:
  assumes "serves res ps s" and "list_all is_list_page ps"
    and "getitem plugins ''data'' = Inr (JArr acc)"
  shows "walk plugins res s =
    Some (Inr (setitem plugins ''data'' (JArr (acc @ concat (map items_of ps)))), follow res ps s)"
  using assms
proof (induction ps arbitrary: plugins res s acc)
  case Nil
  from Nil.prems(1) obtain nx where nx: "getitem res ''next'' = Inr nx" "\<not> py_bool nx"
    by (auto split: sum.splits)
  from walk_stop[OF nx] setitem_same[OF Nil.prems(3)] show ?case by simp
next
  case (Cons p ps)
  let ?s' = "log_req (cursor_request res (fst s)) s"
  from Cons.prems(1) obtain c code where c: "getitem res ''next'' = Inr (JStr c)" "c \<noteq> []"
    and out: "respond (snd s) (sent (snd s) @ [cursor_request res (fst s)]) = Response code (Some p)"
      "\<not> is_http_error code"
    and rest: "serves p ps ?s'"
    by (auto split: sum.splits json.splits outcome.splits option.splits)
  have rq: "cursor_request res (fst s) = request_of GET (base_url (fst s) @ ''/'' @ py_strip ''/'' c) None (fst s)"
    using c by (simp add: cursor_request_def)
  have get: "kong_get (UStr (py_strip ''/'' c)) s = (Inr p, ?s')"
    using out by (simp add: kong_get_eval[OF kong_url_str] rq)
  from Cons.prems(2) obtain xs where xs: "getitem p ''data'' = Inr (JArr xs)"
    and items: "items_of p = xs"
    by (auto simp: is_list_page_def items_of_def split: sum.splits json.splits)
  have add: "py_iadd (JArr acc) (JArr xs) = Inr (JArr (acc @ xs))" by simp
  have "walk plugins res s = walk (setitem plugins ''data'' (JArr (acc @ xs))) p ?s'"
    by (rule walk_step[OF c get Cons.prems(3) xs add])
  also have "\<dots> = Some (Inr (setitem (setitem plugins ''data'' (JArr (acc @ xs))) ''data''
        (JArr ((acc @ xs) @ concat (map items_of ps)))), follow p ps ?s')"
    using Cons.prems(2) by (intro Cons.IH[OF rest _ setitem_get[OF Cons.prems(3)]]) simp
  finally show ?case by (simp add: setitem_twice items)
qed

text \<open>
  C8. When the gateway answers the cursor of the first page and of each further page
  with a next page, finitely many in all, each with a \<open>data\<close> array, and the cursor of the
  last one is false, the pagination loop of \<open>plugin_query\<close> ends. It returns the first page
  with its \<open>data\<close> replaced by the data of all pages, one after the other in page order,
  having made exactly the cursor requests: a GET for each cursor, on the cursor as a
  path under the base address without the slashes at its ends.
\<close>

theorem walk_collects_pages:
  assumes "serves first ps s" and "list_all is_list_page (first # ps)"
  shows "walk first first s =
    Some (Inr (setitem first ''data'' (JArr (concat (map items_of (first # ps))))), follow first ps s)"
proof -
  from assms(2) obtain xs where xs: "getitem first ''data'' = Inr (JArr xs)"
    and items: "items_of first = xs"
    by (auto simp: is_list_page_def items_of_def split: sum.splits json.splits)
  from assms(2) have "list_all is_list_page ps" by simp
  from walk_collects[OF assms(1) this xs] items show ?thesis by simp
qed

lemma demo_serves: "on_demo s \<Longrightarrow> serves page1 [page2] s"
  by (simp add: page1_def page2_def cursor_request_def strip_cursor on_demo_def k0_def answer_def
      request_of_def is_http_error_def)

theorem walk_collects_pages_witness:
  "walk page1 page1 (k0, demo)
     = Some (Inr (JObj [(''data'', JArr [cors_global, cors_svc1, acl_one, acl_two]),
                        (''next'', JStr ''/plugins?offset=2'')]),
             log_req (get_req ''http://kong:8001/plugins?offset=2'') (k0, demo))"
proof -
  have pages: "list_all is_list_page [page1, page2]"
    by (simp add: is_list_page_def page1_def page2_def)
  have items: "concat (map items_of [page1, page2]) = [cors_global, cors_svc1, acl_one, acl_two]"
    by (simp add: items_of_def page1_def page2_def)
  have st: "follow page1 [page2] (k0, demo) = log_req (get_req ''http://kong:8001/plugins?offset=2'') (k0, demo)"
    by (simp add: cursor_request_def page1_def strip_cursor get_req_def k0_def)
  from walk_collects_pages[OF demo_serves[OF on_demo_start] pages]
  show ?thesis unfolding items st by (simp add: page1_def)
qed

subsection \<open>Routes\<close>

lemma sort_eq_mset: "sort xs = sort ys \<longleftrightarrow> mset xs = mset ys" for xs ys :: "string list"
proof
  assume "sort xs = sort ys"
  then have "mset (sort xs) = mset (sort ys)" by simp
  then show "mset xs = mset ys" by simp
next
  assume "mset xs = mset ys"
  then have "sorted_list_of_multiset (mset xs) = sorted_list_of_multiset (mset ys)" by simp
  then show "sort xs = sort ys" by simp
qed

lemma sorted_eq_field:
  assumes "str_list_field r k"
  shows "\<exists>v. field_or_empty r k = Inr v \<and> sorted_eq w v hs = Inr (mset (field_strs r k) = mset hs)"
proof -
  from assms consider "dict_get r k = Inr JNull"
    | xs where "dict_get r k = Inr (JArr xs)" "list_all is_str xs"
    by (auto simp: str_list_field_def split: sum.splits json.splits)
  then show ?thesis
  proof cases
    case 1
    with sort_eq_mset[of "[]" hs] show ?thesis
      by (auto simp: field_or_empty_def sorted_eq_def field_strs_def)
  next
    case 2
    then show ?thesis
      by (simp add: field_or_empty_def sorted_eq_def field_strs_def sort_eq_mset)
  qed
qed

lemma route_matches_equiv:
  assumes "wf_route r"
  shows "route_matches w hosts paths methods protocols r = Inr (route_equiv hosts paths methods protocols r)"
proof -
  from assms have w: "str_list_field r ''hosts''" "str_list_field r ''paths''"
    "str_list_field r ''methods''" "str_list_field r ''protocols''"
    by (simp_all add: wf_route_def)
  from sorted_eq_field[OF w(1), of w hosts] obtain vh where h: "field_or_empty r ''hosts'' = Inr vh"
    "sorted_eq w vh hosts = Inr (mset (field_strs r ''hosts'') = mset hosts)" by blast
  from sorted_eq_field[OF w(2), of w paths] obtain vp where p: "field_or_empty r ''paths'' = Inr vp"
    "sorted_eq w vp paths = Inr (mset (field_strs r ''paths'') = mset paths)" by blast
  from sorted_eq_field[OF w(3), of w methods] obtain vm where m: "field_or_empty r ''methods'' = Inr vm"
    "sorted_eq w vm methods = Inr (mset (field_strs r ''methods'') = mset methods)" by blast
  from sorted_eq_field[OF w(4), of w protocols] obtain vr where r: "field_or_empty r ''protocols'' = Inr vr"
    "sorted_eq w vr protocols = Inr (mset (field_strs r ''protocols'') = mset protocols)" by blast
  show ?thesis
    by (simp add: route_matches_def h p m r route_equiv_def split: bool.splits)
qed

lemma filter_routes_equiv:
  assumes "list_all wf_route rs"
  shows "filter_routes w hosts paths methods protocols rs
     = Inr (filter (route_equiv hosts paths methods protocols) rs)"
  using assms by (induction rs) (simp_all add: route_matches_equiv)

lemma route_query_eval:
  assumes "service_get sn s = (Inr sv, s1)" and "sv \<noteq> JNull"
    and "route_list sn s1 = (Inr (JArr rs), s2)" and "list_all wf_route rs"
  shows "route_query sn hosts paths methods protocols s =
    (case filter (route_equiv hosts paths methods protocols) rs of
       [] \<Rightarrow> Inr JNull
     | [r] \<Rightarrow> Inr r
     | _ \<Rightarrow> Inl (ValueError ''Duplicate routes found. Clean up manually first''), s2)"
  using assms(1-3)
  by (simp add: route_query_def filter_routes_equiv[OF assms(4)] split: list.splits)

text \<open>
  C3, as amended. Let the service exist and its routes be listed, each field of each
  route absent, \<open>null\<close> or a list of strings. A route matches when each of its \<open>hosts\<close>,
  \<open>paths\<close>, \<open>methods\<close> and \<open>protocols\<close> holds the same strings as the desired list, each as
  often as there (in any order; an absent field counts as empty). \<open>route_query\<close> returns
  \<open>None\<close> when no route matches, the route when one does, and raises \<open>ValueError\<close> when
  more than one does.
\<close>

theorem route_query_matches:
  assumes "service_get sn s = (Inr sv, s1)" and "sv \<noteq> JNull"
    and "route_list sn s1 = (Inr (JArr rs), s2)" and "list_all wf_route rs"
  shows "list_all (\<lambda>r. route_matches w hosts paths methods protocols r
            = Inr (route_equiv hosts paths methods protocols r)) rs
    \<and> route_query sn hosts paths methods protocols s =
        (case filter (route_equiv hosts paths methods protocols) rs of
           [] \<Rightarrow> Inr JNull
         | [r] \<Rightarrow> Inr r
         | _ \<Rightarrow> Inl (ValueError ''Duplicate routes found. Clean up manually first''), s2)"
proof
  from assms(4)
  show "list_all (\<lambda>r. route_matches w hosts paths methods protocols r
            = Inr (route_equiv hosts paths methods protocols r)) rs"
    by (induction rs) (simp_all add: route_matches_equiv)
next
  from assms(1-3)
  show "route_query sn hosts paths methods protocols s =
        (case filter (route_equiv hosts paths methods protocols) rs of
           [] \<Rightarrow> Inr JNull
         | [r] \<Rightarrow> Inr r
         | _ \<Rightarrow> Inl (ValueError ''Duplicate routes found. Clean up manually first''), s2)"
    by (simp add: route_query_def filter_routes_equiv[OF assms(4)] split: list.splits)
qed

lemma demo_route_list:
  "on_demo s \<Longrightarrow> route_list ''svc1'' s
     = (Inr (JArr [route_ab, route_cc]), log_req (get_req ''http://kong:8001/services/svc1/routes'') s)"
  by (simp add: route_list_def kong_get_eval[where a = "''http://kong:8001/services/svc1/routes''"]
      kong_url_def on_demo_def k0_def answer_def request_of_def get_req_def is_http_error_def)

lemma demo_routes_wf: "list_all wf_route [route_ab, route_cc]"
  by (simp add: wf_route_def str_list_field_def route_ab_def route_cc_def)

lemma demo_route_fields:
  "field_strs route_ab ''hosts'' = [''a'', ''b'']" "field_strs route_ab ''paths'' = []"
  "field_strs route_ab ''methods'' = []" "field_strs route_ab ''protocols'' = []"
  "field_strs route_cc ''hosts'' = [''c'', ''c'']" "field_strs route_cc ''paths'' = []"
  "field_strs route_cc ''methods'' = []" "field_strs route_cc ''protocols'' = []"
  by (simp_all add: field_strs_def route_ab_def route_cc_def)

theorem route_query_matches_witness:
  "route_query ''svc1'' [''b'', ''a''] [] [] [] (k0, demo) = (Inr route_ab, after_routes (k0, demo))
   \<and> route_query ''svc1'' [''a''] [] [] [] (k0, demo) = (Inr JNull, after_routes (k0, demo))"
proof -
  note o1 = on_demo_log[OF on_demo_start, of "get_req ''http://kong:8001/services/svc1''"]
  have sv: "JObj [(''id'', JStr svc1_id), (''name'', JStr ''svc1'')] \<noteq> JNull" by simp
  note T = route_query_matches[OF demo_get_service[OF on_demo_start] sv demo_route_list[OF o1]
      demo_routes_wf, THEN conjunct2]
  have ab: "mset [''a'', ''b''] = mset [''b'', ''a'']" by simp
  have cc: "mset [''c'', ''c''] \<noteq> mset [''b'', ''a'']"
    using mset_eq_setD[of "[''c'', ''c'']" "[''b'', ''a'']"] by auto
  have a1: "mset [''a'', ''b''] \<noteq> mset [''a'']"
    using mset_eq_length[of "[''a'', ''b'']" "[''a'']"] by auto
  have c1: "mset [''c'', ''c''] \<noteq> mset [''a'']"
    using mset_eq_length[of "[''c'', ''c'']" "[''a'']"] by auto
  have 1: "filter (route_equiv [''b'', ''a''] [] [] []) [route_ab, route_cc] = [route_ab]"
    using ab cc by (simp add: route_equiv_def demo_route_fields del: mset.simps)
  have 2: "filter (route_equiv [''a''] [] [] []) [route_ab, route_cc] = []"
    using a1 c1 by (simp add: route_equiv_def demo_route_fields del: mset.simps)
  from T[of "[''b'', ''a'']" "[]" "[]" "[]", unfolded 1] T[of "[''a'']" "[]" "[]" "[]", unfolded 2]
  show ?thesis by (simp add: after_routes_def)
qed

text \<open>
  C3 as stated fails: the hosts of the second route of the example service are \<open>c\<close> and
  \<open>c\<close>, as a set the same as the desired hosts \<open>c\<close>, and its other fields are empty as
  desired; yet \<open>route_query\<close> finds no match.
\<close>

theorem route_query_duplicate_host:
  "set (field_strs route_cc ''hosts'') = set [''c'']
   \<and> set (field_strs route_cc ''paths'') = set []
   \<and> set (field_strs route_cc ''methods'') = set []
   \<and> set (field_strs route_cc ''protocols'') = set []
   \<and> route_list ''svc1'' (log_req (get_req ''http://kong:8001/services/svc1'') (k0, demo))
       = (Inr (JArr [route_ab, route_cc]), after_routes (k0, demo))
   \<and> route_query ''svc1'' [''c''] [] [] [] (k0, demo) = (Inr JNull, after_routes (k0, demo))"
proof -
  note o1 = on_demo_log[OF on_demo_start, of "get_req ''http://kong:8001/services/svc1''"]
  have sv: "JObj [(''id'', JStr svc1_id), (''name'', JStr ''svc1'')] \<noteq> JNull" by simp
  have ab: "mset [''a'', ''b''] \<noteq> mset [''c'']"
    using mset_eq_length[of "[''a'', ''b'']" "[''c'']"] by auto
  have cc: "mset [''c'', ''c''] \<noteq> mset [''c'']"
    using mset_eq_length[of "[''c'', ''c'']" "[''c'']"] by auto
  have 1: "filter (route_equiv [''c''] [] [] []) [route_ab, route_cc] = []"
    using ab cc by (simp add: route_equiv_def demo_route_fields del: mset.simps)
  have q: "route_query ''svc1'' [''c''] [] [] [] (k0, demo) = (Inr JNull, after_routes (k0, demo))"
    unfolding route_query_eval[OF demo_get_service[OF on_demo_start] sv demo_route_list[OF o1]
      demo_routes_wf, of "[''c'']" "[]" "[]" "[]"] 1
    by (simp add: after_routes_def)
  have l: "route_list ''svc1'' (log_req (get_req ''http://kong:8001/services/svc1'') (k0, demo))
       = (Inr (JArr [route_ab, route_cc]), after_routes (k0, demo))"
    by (simp add: demo_route_list[OF o1] after_routes_def)
  from q l show ?thesis by (simp add: demo_route_fields)
qed

end
